theory Spec2Isabelle
  imports Complex_Main "HOL-Library.Log_Nat"
begin

section \<open>The model-based agent of \<^verbatim>\<open>pyrl/agents/modelbased.py\<close>\<close>

text \<open>
  The theory embeds the class \<^verbatim>\<open>ModelBasedAgent\<close>: its attributes are the fields of
  the record \<open>world\<close>, together with the store of the Python objects the agent shares
  with its caller (observations and actions). Every method is a function from the
  world to an outcome and the world it leaves behind, so an exception keeps the
  assignments made before it, as in Python.

  Python's integers are \<open>int\<close>. The integers of a numpy array are \<^verbatim>\<open>int64\<close>: every
  operation on them wraps around, written \<open>wrap64\<close>. Line 62 computes in \<^verbatim>\<open>float64\<close>:
  every product is rounded to 53 significant bits, the nearest even one on a tie, and
  overflows to an infinity. The floats that the agent only copies (the continuous
  features, the rewards, the entries of the fused vectors) are real numbers. The array
  of line 111 has \<^verbatim>\<open>numDiscStates\<close> entries, and its allocation can fail; the arrays
  of the fused vectors are as long as the lists they copy, and their allocation is
  taken to succeed. The debugging \<^verbatim>\<open>print\<close> of \<^verbatim>\<open>agent_step\<close> is left out.
\<close>

subsection \<open>Exceptions and the exception-state monad\<close>

datatype error =
    AssertionError string
  | NameError string
  | AttributeError string
  | IndexError
  | ValueError
  | TypeError
  | OverflowError
  | MemoryError

type_synonym ('a, 's) prog = "'s \<Rightarrow> (error + 'a) \<times> 's"

definition ret :: "'a \<Rightarrow> ('a, 's) prog" where
  "ret x = (\<lambda>s. (Inr x, s))"

definition raise :: "error \<Rightarrow> ('a, 's) prog" where
  "raise e = (\<lambda>s. (Inl e, s))"

definition thn :: "('a, 's) prog \<Rightarrow> ('a \<Rightarrow> ('b, 's) prog) \<Rightarrow> ('b, 's) prog" where
  "thn m f = (\<lambda>s. case m s of (Inl e, s') \<Rightarrow> (Inl e, s') | (Inr x, s') \<Rightarrow> f x s')"

definition lift :: "error + 'a \<Rightarrow> ('a, 's) prog" where
  "lift r = (\<lambda>s. (r, s))"

definition py_assert :: "bool \<Rightarrow> string \<Rightarrow> (unit, 's) prog" where
  "py_assert b msg = (if b then ret () else raise (AssertionError msg))"

text \<open>\<^verbatim>\<open>xs[0]\<close> on a Python list: \<^verbatim>\<open>IndexError\<close> when the list is empty.\<close>

definition first :: "'a list \<Rightarrow> ('a, 's) prog" where
  "first xs = (case xs of [] \<Rightarrow> raise IndexError | x # _ \<Rightarrow> ret x)"

subsection \<open>numpy on one-dimensional arrays\<close>

text \<open>
  An elementwise operation on two arrays of shapes \<open>(k,)\<close> and \<open>(n,)\<close> broadcasts an
  array of length one against the other and raises \<^verbatim>\<open>ValueError\<close> on any other pair of
  different lengths.
\<close>

definition broadcast :: "('a \<Rightarrow> 'b \<Rightarrow> 'c) \<Rightarrow> 'a list \<Rightarrow> 'b list \<Rightarrow> error + 'c list" where
  "broadcast f xs ys =
     (if length xs = length ys then Inr (map2 f xs ys)
      else if length xs = 1 then Inr (map (f (hd xs)) ys)
      else if length ys = 1 then Inr (map (\<lambda>x. f x (hd ys)) xs)
      else Inl ValueError)"

text \<open>
  The value an \<^verbatim>\<open>int64\<close> holds after an operation whose exact result is \<open>x\<close>, and the
  integers that an \<^verbatim>\<open>int64\<close> can hold.
\<close>

definition wrap64 :: "int \<Rightarrow> int" where
  "wrap64 x = (x + 2 ^ 63) mod 2 ^ 64 - 2 ^ 63"

definition int64 :: "int \<Rightarrow> bool" where
  "int64 x = (- (2 ^ 63) \<le> x \<and> x < 2 ^ 63)"

text \<open>
  \<^verbatim>\<open>a.cumprod()\<close> on an \<^verbatim>\<open>int64\<close> array: the running products, \<open>out[0] = a[0]\<close> and
  \<open>out[i] = out[i-1] * a[i]\<close>.
\<close>

fun cumprod_from :: "int \<Rightarrow> int list \<Rightarrow> int list" where
  "cumprod_from acc [] = []"
| "cumprod_from acc (x # xs) = wrap64 (acc * x) # cumprod_from (wrap64 (acc * x)) xs"

definition cumprod :: "int list \<Rightarrow> int list" where
  "cumprod xs = cumprod_from 1 xs"

text \<open>
  \<^verbatim>\<open>phi = numpy.zeros((n+1,)); phi[0] = d; phi[1:] = xs\<close>: the slice assignment
  broadcasts \<open>xs\<close> to the shape \<open>(n,)\<close> of the slice, so an array of length one fills
  every position, and any other length than \<open>n\<close> raises.
\<close>

definition assign_tail :: "nat \<Rightarrow> real list \<Rightarrow> error + real list" where
  "assign_tail n xs =
     (if length xs = n then Inr xs
      else if length xs = 1 then Inr (replicate n (hd xs))
      else Inl ValueError)"

definition fused :: "nat \<Rightarrow> int \<Rightarrow> real list \<Rightarrow> error + real list" where
  "fused n d xs =
     (case assign_tail n xs of Inl e \<Rightarrow> Inl e | Inr ys \<Rightarrow> Inr (of_int d # ys))"

subsection \<open>The discrete dimensions\<close>

text \<open>
  The \<^verbatim>\<open>float64\<close> values that line 62 can produce: integers, which its products of
  integers always are, the two infinities and the value that is not a number.
\<close>

datatype float64 = Finite int | PInf | NInf | NaN

text \<open>
  Rounding an integer to 53 significant bits: \<open>q\<close> is the weight of the last bit kept,
  and a remainder of exactly half of \<open>q\<close> goes to the even neighbour.
\<close>

definition round53 :: "int \<Rightarrow> int" where
  "round53 n =
     (let a = \<bar>n\<bar>;
          q = 2 ^ nat (bitlen a - 53);
          d = a div q;
          m = a mod q;
          r = (if 2 * m < q \<or> (2 * m = q \<and> even d) then d else d + 1) * q
      in if n < 0 then - r else r)"

text \<open>The \<^verbatim>\<open>float64\<close> nearest to an integer; beyond the largest one it is an infinity.\<close>

definition float64_of_int :: "int \<Rightarrow> float64" where
  "float64_of_int n =
     (let r = round53 n
      in if \<bar>r\<bar> < 2 ^ 1024 then Finite r else if 0 < r then PInf else NInf)"

text \<open>
  \<open>a * m\<close> for a float \<open>a\<close> and an \<^verbatim>\<open>int64\<close> \<open>m\<close>: \<open>m\<close> is converted to \<^verbatim>\<open>float64\<close>, and
  the exact product of the two floats is rounded.
\<close>

definition fmul_int :: "float64 \<Rightarrow> int \<Rightarrow> float64" where
  "fmul_int a m =
     (case a of
        Finite x \<Rightarrow> float64_of_int (x * round53 m)
      | PInf \<Rightarrow> (if m = 0 then NaN else if 0 < m then PInf else NInf)
      | NInf \<Rightarrow> (if m = 0 then NaN else if 0 < m then NInf else PInf)
      | NaN \<Rightarrow> NaN)"

text \<open>
  \<^verbatim>\<open>int(x)\<close> of a float: \<^verbatim>\<open>OverflowError\<close> on an infinity, \<^verbatim>\<open>ValueError\<close> on the value
  that is not a number.
\<close>

definition py_int :: "float64 \<Rightarrow> error + int" where
  "py_int x =
     (case x of Finite n \<Rightarrow> Inr n | PInf \<Rightarrow> Inl OverflowError | NInf \<Rightarrow> Inl OverflowError
      | NaN \<Rightarrow> Inl ValueError)"

text \<open>
  Line 62: \<^verbatim>\<open>int(reduce(lambda a, b: a * (b[1] - b[0] + 1), self.discStates, 1.0))\<close>,
  a left fold over the \<^verbatim>\<open>int64\<close> rows \<open>[min, max]\<close> that starts from the float \<open>1.0\<close>.
\<close>

definition numDiscStates_of :: "(int \<times> int) list \<Rightarrow> error + int" where
  "numDiscStates_of ds =
     py_int (foldl (\<lambda>a b. fmul_int a (wrap64 (wrap64 (snd b - fst b) + 1))) (Finite 1) ds)"

text \<open>
  Lines 112 to 115 of \<^verbatim>\<open>getDiscState\<close> on \<^verbatim>\<open>int64\<close> arrays. \<^verbatim>\<open>mxs[:0:-1]\<close> runs from
  the last entry down to the entry at index one, so it is the reversed tail; indexing
  the columns of an array without rows raises \<^verbatim>\<open>IndexError\<close>.
\<close>

definition multipliers :: "(int \<times> int) list \<Rightarrow> int list" where
  "multipliers ds =
     (let mxs = map (\<lambda>b. wrap64 (wrap64 (snd b - fst b) + 1)) ds
      in rev (cumprod (rev (tl mxs))) @ [1])"

definition discIndex :: "(int \<times> int) list \<Rightarrow> int list \<Rightarrow> error + int" where
  "discIndex ds state =
     (case broadcast (\<lambda>v lo. wrap64 (v - lo)) state (map fst ds) of
        Inl e \<Rightarrow> Inl e
      | Inr x \<Rightarrow> (case broadcast (\<lambda>a m. wrap64 (a * m)) x (multipliers ds) of
                    Inl e \<Rightarrow> Inl e
                  | Inr p \<Rightarrow> Inr (wrap64 (sum_list p))))"

text \<open>
  numpy outside this file. \<^verbatim>\<open>numpy.array\<close> builds an \<^verbatim>\<open>int64\<close> array from integers that
  all fit; from others it builds an array of another type, and what lines 62 and 112 to
  115 compute on it is left to \<open>wide_count\<close> and \<open>wide_index\<close>.
  \<^verbatim>\<open>numpy.zeros((n,))\<close> raises \<^verbatim>\<open>ValueError\<close> when the \<open>8 * n\<close> bytes of \<open>n\<close> floats
  exceed the largest array size \<open>2^63 - 1\<close>, and \<^verbatim>\<open>MemoryError\<close> when the machine cannot
  provide them, which \<open>can_alloc\<close> decides.
\<close>

record numpy_env =
  can_alloc :: "int \<Rightarrow> bool"
  wide_count :: "(int \<times> int) list \<Rightarrow> error + int"
  wide_index :: "(int \<times> int) list \<Rightarrow> int list \<Rightarrow> error + int"

definition int64_rows :: "(int \<times> int) list \<Rightarrow> bool" where
  "int64_rows ds = (\<forall>b\<in>set ds. int64 (fst b) \<and> int64 (snd b))"

definition count_states :: "numpy_env \<Rightarrow> (int \<times> int) list \<Rightarrow> error + int" where
  "count_states env ds = (if int64_rows ds then numDiscStates_of ds else wide_count env ds)"

definition index_state :: "numpy_env \<Rightarrow> (int \<times> int) list \<Rightarrow> int list \<Rightarrow> error + int" where
  "index_state env ds state =
     (if ds = [] then Inl IndexError
      else if int64_rows ds \<and> (\<forall>v\<in>set state. int64 v) then discIndex ds state
      else wide_index env ds state)"

subsection \<open>The store of Python objects\<close>

text \<open>
  An \<^verbatim>\<open>Observation\<close> or an \<^verbatim>\<open>Action\<close> of RL-Glue is an object with the three
  attributes \<^verbatim>\<open>intArray\<close>, \<^verbatim>\<open>doubleArray\<close> and \<^verbatim>\<open>charArray\<close>, each a reference to
  a Python list. Both the object and its lists are mutable and can be shared with the
  caller, so they live in a store: a reference is an index into the list of cells, and
  allocation appends a cell.
\<close>

type_synonym ref = nat

datatype obj =
    IntList "int list"
  | DoubleList "real list"
  | CharList string
  | AbstractType ref ref ref

datatype 'a bound = Num 'a | UNSPEC | NEGINF | POSINF

text \<open>
  What the agent reads from \<^verbatim>\<open>TaskSpecVRLGLUE3.TaskSpecParser\<close>, a library outside the
  repository: the flag \<^verbatim>\<open>valid\<close> and the ranges returned by its getters. The bounds
  of the integer observations are numbers (the agent never tests them for the special
  values); the other bounds are numbers or one of the special values.
\<close>

record TaskSpecT =
  valid :: bool
  getDoubleObservations :: "(real bound \<times> real bound) list"
  getIntObservations :: "(int \<times> int) list"
  getIntActions :: "(int bound \<times> int bound) list"
  getDoubleActions :: "(real bound \<times> real bound) list"
  getRewardRange :: "(real bound \<times> real bound) list"

definition isSpecial :: "'a bound \<Rightarrow> bool" where
  "isSpecial b = (case b of Num _ \<Rightarrow> False | _ \<Rightarrow> True)"

text \<open>
  The model and the planner are classes handed to the constructor, and their code is
  outside this file. An instance of the model is what it was constructed from; an
  instance of the planner is what it was constructed from and the calls it has received
  so far. The class of the planner is its answer to \<^verbatim>\<open>getAction\<close> as a function of
  that instance. The constructors and the two methods are taken to return; the
  dictionaries \<^verbatim>\<open>model_params\<close> and \<^verbatim>\<open>planner_params\<close> are left out.
\<close>

datatype call =
    GetAction "real list"
  | UpdateExperience "real list" int "real list option" real

record model_inst =
  m_numDiscStates :: int
  m_doubleObservations :: "(real bound \<times> real bound) list"
  m_numActions :: int
  m_rewardRange :: "real bound \<times> real bound"

record planner_inst =
  p_gamma :: real
  p_model :: model_inst
  p_calls :: "call list"

record world =
  heap :: "obj list"
  numpy :: numpy_env
  randGenerator :: "nat \<Rightarrow> real"
  lastAction :: ref
  lastObservation :: ref
  gamma :: real
  planner_class :: "planner_inst \<Rightarrow> real list \<Rightarrow> int"
  model :: "model_inst option"
  planner :: "planner_inst option"
  epsilon :: real
  numStates :: "nat option"
  discStates :: "(int \<times> int) list option"
  numDiscStates :: "int option"
  numActions :: "int option"

definition gets :: "('s \<Rightarrow> 'a) \<Rightarrow> ('a, 's) prog" where
  "gets f = (\<lambda>s. (Inr (f s), s))"

definition modify :: "('s \<Rightarrow> 's) \<Rightarrow> (unit, 's) prog" where
  "modify f = (\<lambda>s. (Inr (), f s))"

text \<open>Reading an attribute that no assignment has created yet raises \<^verbatim>\<open>AttributeError\<close>.\<close>

definition attr :: "('s \<Rightarrow> 'a option) \<Rightarrow> string \<Rightarrow> ('a, 's) prog" where
  "attr f name = (\<lambda>s. case f s of None \<Rightarrow> (Inl (AttributeError name), s) | Some x \<Rightarrow> (Inr x, s))"

text \<open>
  Following a reference. Python has no dangling references; the error of the second
  branch keeps the function total on stores that no run produces.
\<close>

definition deref :: "ref \<Rightarrow> (obj, world) prog" where
  "deref r = (\<lambda>w. if r < length (heap w) then (Inr (heap w ! r), w)
                   else (Inl (AttributeError ''dangling''), w))"

definition alloc :: "obj \<Rightarrow> (ref, world) prog" where
  "alloc v = (\<lambda>w. (Inr (length (heap w)), w\<lparr>heap := heap w @ [v]\<rparr>))"

text \<open>\<^verbatim>\<open>numpy.zeros((n,))\<close>, for its exceptions only: the array is a local value.\<close>

definition np_zeros :: "int \<Rightarrow> (unit, world) prog" where
  "np_zeros n =
     (\<lambda>w. if 2 ^ 60 \<le> n then (Inl ValueError, w)
          else if can_alloc (numpy w) n then (Inr (), w)
          else (Inl MemoryError, w))"

definition intArray_of :: "ref \<Rightarrow> (int list, world) prog" where
  "intArray_of r =
     thn (deref r) (\<lambda>v. case v of
         AbstractType i d c \<Rightarrow>
           thn (deref i) (\<lambda>l. case l of IntList xs \<Rightarrow> ret xs | _ \<Rightarrow> raise TypeError)
       | _ \<Rightarrow> raise (AttributeError ''intArray''))"

definition doubleArray_of :: "ref \<Rightarrow> (real list, world) prog" where
  "doubleArray_of r =
     thn (deref r) (\<lambda>v. case v of
         AbstractType i d c \<Rightarrow>
           thn (deref d) (\<lambda>l. case l of DoubleList xs \<Rightarrow> ret xs | _ \<Rightarrow> raise TypeError)
       | _ \<Rightarrow> raise (AttributeError ''doubleArray''))"

text \<open>\<^verbatim>\<open>Action()\<close> and \<^verbatim>\<open>Observation()\<close>: a new object with three new empty lists.\<close>

definition new_abstract_type :: "(ref, world) prog" where
  "new_abstract_type =
     thn (alloc (IntList [])) (\<lambda>i.
     thn (alloc (DoubleList [])) (\<lambda>d.
     thn (alloc (CharList [])) (\<lambda>c.
     alloc (AbstractType i d c))))"

text \<open>\<^verbatim>\<open>r.intArray = [a, ...]\<close>: a new list, and the attribute of the object set to it.\<close>

definition set_intArray :: "ref \<Rightarrow> int list \<Rightarrow> (unit, world) prog" where
  "set_intArray r xs =
     thn (deref r) (\<lambda>v. case v of
         AbstractType i d c \<Rightarrow>
           thn (alloc (IntList xs)) (\<lambda>i'.
           modify (\<lambda>w. w\<lparr>heap := (heap w)[r := AbstractType i' d c]\<rparr>))
       | _ \<Rightarrow> raise (AttributeError ''intArray''))"

text \<open>
  \<^verbatim>\<open>copy.deepcopy\<close> of an object: new lists with the elements of the old ones (numbers
  and characters are immutable) and a new object that refers to them.
\<close>

definition copy_cell :: "ref \<Rightarrow> (ref, world) prog" where
  "copy_cell r = thn (deref r) alloc"

definition deepcopy :: "ref \<Rightarrow> (ref, world) prog" where
  "deepcopy r =
     thn (deref r) (\<lambda>v. case v of
         AbstractType i d c \<Rightarrow>
           thn (copy_cell i) (\<lambda>i'.
           thn (copy_cell d) (\<lambda>d'.
           thn (copy_cell c) (\<lambda>c'.
           alloc (AbstractType i' d' c'))))
       | _ \<Rightarrow> alloc v)"

subsection \<open>The random generator\<close>

text \<open>
  \<^verbatim>\<open>random.Random\<close> is a stream of draws from \<open>[0, 1)\<close>; \<^verbatim>\<open>random()\<close> takes the next
  one. \<^verbatim>\<open>randint(a, b)\<close> of Python 2.7 is \<^verbatim>\<open>randrange(a, b+1)\<close>: with
  \<open>width = b + 1 - a\<close> it raises \<^verbatim>\<open>ValueError\<close> unless \<open>width > 0\<close> and returns
  \<^verbatim>\<open>a + int(self.random() * width)\<close>.
\<close>

definition rand_random :: "(real, world) prog" where
  "rand_random =
     (\<lambda>w. (Inr (randGenerator w 0), w\<lparr>randGenerator := (\<lambda>n. randGenerator w (Suc n))\<rparr>))"

definition rand_randint :: "int \<Rightarrow> int \<Rightarrow> (int, world) prog" where
  "rand_randint a b =
     (if b + 1 - a > 0
      then thn rand_random (\<lambda>u. ret (a + \<lfloor>u * of_int (b + 1 - a)\<rfloor>))
      else raise ValueError)"

subsection \<open>The methods of the agent\<close>

definition planner_getAction :: "real list \<Rightarrow> (int, world) prog" where
  "planner_getAction s =
     thn (attr planner ''getAction'') (\<lambda>p.
     thn (gets (\<lambda>w. planner_class w p s)) (\<lambda>a.
     thn (modify (\<lambda>w. w\<lparr>planner := Some (p\<lparr>p_calls := p_calls p @ [GetAction s]\<rparr>)\<rparr>)) (\<lambda>_.
     ret a)))"

definition planner_updateExperience ::
  "real list \<Rightarrow> int \<Rightarrow> real list option \<Rightarrow> real \<Rightarrow> (unit, world) prog" where
  "planner_updateExperience phi a phi' r =
     thn (attr planner ''updateExperience'') (\<lambda>p.
     modify (\<lambda>w. w\<lparr>planner := Some (p\<lparr>p_calls := p_calls p @ [UpdateExperience phi a phi' r]\<rparr>)\<rparr>))"

definition agent_init :: "(string \<Rightarrow> TaskSpecT) \<Rightarrow> string \<Rightarrow> (unit, world) prog" where
  "agent_init TaskSpecParser taskSpec =
     (let TaskSpec = TaskSpecParser taskSpec in
      thn (if valid TaskSpec then
             thn (py_assert (length (getDoubleObservations TaskSpec)
                             + length (getIntObservations TaskSpec) > 0)
                    ''expecting at least one continuous or discrete observation'') (\<lambda>_.
             thn (modify (\<lambda>w. w\<lparr>numStates := Some (length (getDoubleObservations TaskSpec))\<rparr>)) (\<lambda>_.
             thn (modify (\<lambda>w. w\<lparr>discStates := Some (getIntObservations TaskSpec)\<rparr>)) (\<lambda>_.
             thn (attr discStates ''discStates'') (\<lambda>ds.
             thn (gets numpy) (\<lambda>env.
             thn (lift (count_states env ds)) (\<lambda>nds.
             thn (modify (\<lambda>w. w\<lparr>numDiscStates := Some nds\<rparr>)) (\<lambda>_.
             thn (py_assert (length (getIntActions TaskSpec) = 1)
                    ''expecting 1-dimensional discrete actions'') (\<lambda>_.
             thn (py_assert (length (getDoubleActions TaskSpec) = 0)
                    ''expecting no continuous actions'') (\<lambda>_.
             thn (py_assert (\<not> isSpecial (fst (hd (getIntActions TaskSpec))))
                    '' expecting min action to be a number not a special value'') (\<lambda>_.
             thn (py_assert (\<not> isSpecial (snd (hd (getIntActions TaskSpec))))
                    '' expecting max action to be a number not a special value'') (\<lambda>_.
             thn (case snd (hd (getIntActions TaskSpec)) of
                    Num hi \<Rightarrow> modify (\<lambda>w. w\<lparr>numActions := Some (hi + 1)\<rparr>)
                  | _ \<Rightarrow> raise TypeError) (\<lambda>_.
             thn (attr numDiscStates ''numDiscStates'') (\<lambda>nd.
             thn (attr numActions ''numActions'') (\<lambda>na.
             thn (case getRewardRange TaskSpec of
                    [] \<Rightarrow> raise IndexError
                  | rr # _ \<Rightarrow>
                      modify (\<lambda>w. w\<lparr>model := Some \<lparr>m_numDiscStates = nd,
                        m_doubleObservations = getDoubleObservations TaskSpec,
                        m_numActions = na, m_rewardRange = rr\<rparr>\<rparr>)) (\<lambda>_.
             thn (gets gamma) (\<lambda>g.
             thn (attr model ''model'') (\<lambda>m.
             modify (\<lambda>w. w\<lparr>planner := Some \<lparr>p_gamma = g, p_model = m, p_calls = []\<rparr>\<rparr>))))))))))))))))))
           else raise (NameError ''taskSpecString'')) (\<lambda>_.
      thn new_abstract_type (\<lambda>a.
      thn (modify (\<lambda>w. w\<lparr>lastAction := a\<rparr>)) (\<lambda>_.
      thn new_abstract_type (\<lambda>ob.
      modify (\<lambda>w. w\<lparr>lastObservation := ob\<rparr>))))))"

definition getAction :: "real list \<Rightarrow> int \<Rightarrow> (int, world) prog" where
  "getAction state discState =
     thn rand_random (\<lambda>u.
     thn (gets epsilon) (\<lambda>eps.
     if u < eps then
       thn (attr numActions ''numActions'') (\<lambda>n. rand_randint 0 (n - 1))
     else
       thn (lift (fused (length state) discState state)) (\<lambda>s.
       planner_getAction s)))"

definition getDiscState :: "int list \<Rightarrow> (int, world) prog" where
  "getDiscState state =
     thn (attr numDiscStates ''numDiscStates'') (\<lambda>n.
     if n > 1 then
       thn (np_zeros n) (\<lambda>_.
       thn (attr discStates ''discStates'') (\<lambda>ds.
       thn (gets numpy) (\<lambda>env.
       lift (index_state env ds state))))
     else ret 0)"

definition agent_start :: "ref \<Rightarrow> (ref, world) prog" where
  "agent_start observation =
     thn (doubleArray_of observation) (\<lambda>theState.
     thn (intArray_of observation) (\<lambda>ints.
     thn (getDiscState ints) (\<lambda>d.
     thn (getAction theState d) (\<lambda>thisIntAction.
     thn new_abstract_type (\<lambda>returnAction.
     thn (set_intArray returnAction [thisIntAction]) (\<lambda>_.
     thn (deepcopy returnAction) (\<lambda>a.
     thn (modify (\<lambda>w. w\<lparr>lastAction := a\<rparr>)) (\<lambda>_.
     thn (deepcopy observation) (\<lambda>ob.
     thn (modify (\<lambda>w. w\<lparr>lastObservation := ob\<rparr>)) (\<lambda>_.
     ret returnAction))))))))))"

definition agent_step :: "real \<Rightarrow> ref \<Rightarrow> (ref, world) prog" where
  "agent_step reward observation =
     thn (doubleArray_of observation) (\<lambda>newState.
     thn (gets lastObservation) (\<lambda>lo.
     thn (doubleArray_of lo) (\<lambda>lastState.
     thn (gets lastAction) (\<lambda>la.
     thn (intArray_of la) (\<lambda>las.
     thn (first las) (\<lambda>lastAct.
     thn (intArray_of observation) (\<lambda>newInts.
     thn (getDiscState newInts) (\<lambda>newDiscState.
     thn (intArray_of lo) (\<lambda>lastInts.
     thn (getDiscState lastInts) (\<lambda>lastDiscState.
     thn (attr numStates ''numStates'') (\<lambda>n.
     thn (lift (fused n lastDiscState lastState)) (\<lambda>phi_t.
     thn (lift (fused n newDiscState newState)) (\<lambda>phi_tp.
     thn (planner_updateExperience phi_t lastAct (Some phi_tp) reward) (\<lambda>_.
     thn (getAction newState newDiscState) (\<lambda>newIntAction.
     thn new_abstract_type (\<lambda>returnAction.
     thn (set_intArray returnAction [newIntAction]) (\<lambda>_.
     thn (deepcopy returnAction) (\<lambda>a.
     thn (modify (\<lambda>w. w\<lparr>lastAction := a\<rparr>)) (\<lambda>_.
     thn (deepcopy observation) (\<lambda>ob.
     thn (modify (\<lambda>w. w\<lparr>lastObservation := ob\<rparr>)) (\<lambda>_.
     ret returnAction)))))))))))))))))))))"

definition agent_end :: "real \<Rightarrow> (unit, world) prog" where
  "agent_end reward =
     thn (gets lastObservation) (\<lambda>lo.
     thn (doubleArray_of lo) (\<lambda>lastState.
     thn (gets lastAction) (\<lambda>la.
     thn (intArray_of la) (\<lambda>las.
     thn (first las) (\<lambda>lastAct.
     thn (intArray_of lo) (\<lambda>lastInts.
     thn (getDiscState lastInts) (\<lambda>lastDiscState.
     thn (attr numStates ''numStates'') (\<lambda>n.
     thn (lift (fused n lastDiscState lastState)) (\<lambda>phi_t.
     planner_updateExperience phi_t lastAct None reward)))))))))"

text \<open>
  Lines 25 to 46, the constructor: \<open>h\<close> is the store it runs in, \<open>env\<close> the numpy of
  the machine, \<open>rng\<close> the stream the new \<^verbatim>\<open>Random()\<close> will draw. The attributes \<^verbatim>\<open>numStates\<close>, \<^verbatim>\<open>discStates\<close>,
  \<^verbatim>\<open>numDiscStates\<close> and \<^verbatim>\<open>numActions\<close> do not exist before \<^verbatim>\<open>agent_init\<close>.
\<close>

definition ModelBasedAgent ::
  "obj list \<Rightarrow> numpy_env \<Rightarrow> (nat \<Rightarrow> real) \<Rightarrow> real
     \<Rightarrow> (planner_inst \<Rightarrow> real list \<Rightarrow> int) \<Rightarrow> world" where
  "ModelBasedAgent h env rng g pc =
     (let n = length h in
      \<lparr>heap = h @ [IntList [], DoubleList [], CharList [], AbstractType n (n + 1) (n + 2),
                   IntList [], DoubleList [], CharList [], AbstractType (n + 4) (n + 5) (n + 6)],
       numpy = env, randGenerator = rng, lastAction = n + 3, lastObservation = n + 7,
       gamma = g, planner_class = pc, model = None, planner = None, epsilon = 0,
       numStates = None, discStates = None, numDiscStates = None, numActions = None\<rparr>)"

subsection \<open>Notions of the specification\<close>

text \<open>
  The combinations of discrete values the task specification allows: one value for
  each dimension, inside its inclusive range.
\<close>

definition declared_range :: "(int \<times> int) list \<Rightarrow> int list set" where
  "declared_range ds = {xs. list_all2 (\<lambda>x b. fst b \<le> x \<and> x \<le> snd b) xs ds}"

text \<open>
  The number of combinations: the product of the sizes \<open>max - min + 1\<close> of the
  dimensions, one for no dimension.
\<close>

definition radix :: "(int \<times> int) list \<Rightarrow> int" where
  "radix ds = prod_list (map (\<lambda>b. snd b - fst b + 1) ds)"



text \<open>
  The value of the object at a reference: the contents of its three arrays. It is
  defined for an object whose attributes refer to lists of integers, of reals and of
  characters, as those of RL-Glue are.
\<close>

definition snapshot :: "obj list \<Rightarrow> ref \<Rightarrow> (int list \<times> real list \<times> string) option" where
  "snapshot h r =
     (if r < length h then
        (case h ! r of
           AbstractType i d c \<Rightarrow>
             (if i < length h \<and> d < length h \<and> c < length h then
                (case (h ! i, h ! d, h ! c) of
                   (IntList xs, DoubleList ys, CharList cs) \<Rightarrow> Some (xs, ys, cs)
                 | _ \<Rightarrow> None)
              else None)
         | _ \<Rightarrow> None)
      else None)"

text \<open>The cells an object consists of: its own and those of its arrays.\<close>

definition cells :: "obj list \<Rightarrow> ref \<Rightarrow> ref set" where
  "cells h r =
     (if r < length h then
        (case h ! r of AbstractType i d c \<Rightarrow> {r, i, d, c} | _ \<Rightarrow> {r})
      else {})"

text \<open>
  The cells that lines 130 to 134 of \<^verbatim>\<open>agent_start\<close> (lines 167 to 171 of
  \<^verbatim>\<open>agent_step\<close>) append to a store of \<open>n\<close> cells: the returned action with its
  first, empty \<^verbatim>\<open>intArray\<close> and the one assigned to it, the deep copy of the action,
  and the deep copy of the observation, whose arrays hold \<open>xs\<close>, \<open>ys\<close> and \<open>cs\<close>.
\<close>

definition context_cells :: "nat \<Rightarrow> int \<Rightarrow> int list \<Rightarrow> real list \<Rightarrow> string \<Rightarrow> obj list" where
  "context_cells n a xs ys cs =
     [IntList [], DoubleList [], CharList [], AbstractType (n + 4) (n + 1) (n + 2),
      IntList [a],
      IntList [a], DoubleList [], CharList [], AbstractType (n + 5) (n + 6) (n + 7),
      IntList xs, DoubleList ys, CharList cs, AbstractType (n + 9) (n + 10) (n + 11)]"

text \<open>
  The stored Episode Context is isolated from the caller: the call that turned the
  store \<open>h\<close> into the world \<open>w'\<close> and returned the action \<open>r\<close> wrote to no cell that
  existed before, the context consists of new objects, and it reads the same in every
  later store that differs from the one of \<open>w'\<close> only in cells that existed before the
  call, in the cells of the returned action, or in cells allocated afterwards.
\<close>

definition context_isolated :: "obj list \<Rightarrow> world \<Rightarrow> ref \<Rightarrow> bool" where
  "context_isolated h w' r =
     (take (length h) (heap w') = h
      \<and> length h \<le> lastAction w' \<and> length h \<le> lastObservation w'
      \<and> (\<forall>h''. length (heap w') \<le> length h''
               \<and> (\<forall>c. length h \<le> c \<and> c < length (heap w') \<and> c \<notin> cells (heap w') r
                      \<longrightarrow> h'' ! c = heap w' ! c)
             \<longrightarrow> snapshot h'' (lastObservation w') = snapshot (heap w') (lastObservation w')
                 \<and> snapshot h'' (lastAction w') = snapshot (heap w') (lastAction w')))"

subsection \<open>A test scenario\<close>

text \<open>
  The end-to-end scenario of the specification: one continuous observation, the
  discrete dimensions \<open>[[0, 1]]\<close>, two actions, \<open>\<epsilon> = 0\<close> and a planner that always
  selects action \<open>1\<close>. The caller's store holds the observations \<open>([0.5], [0])\<close> at
  reference \<open>3\<close> and \<open>([0.7], [1])\<close> at reference \<open>7\<close>. The machine has room for an
  array of \<open>2^27\<close> floats; no integer of the scenario is outside \<^verbatim>\<open>int64\<close>, so that
  \<open>wide_count\<close> and \<open>wide_index\<close> are never called.
\<close>

definition stub_spec :: TaskSpecT where
  "stub_spec = \<lparr>valid = True, getDoubleObservations = [(Num 0, Num 1)],
     getIntObservations = [(0, 1)], getIntActions = [(Num 0, Num 1)],
     getDoubleActions = [], getRewardRange = [(Num 0, Num 2)]\<rparr>"

definition caller_store :: "obj list" where
  "caller_store =
     [IntList [0], DoubleList [1/2], CharList [], AbstractType 0 1 2,
      IntList [1], DoubleList [7/10], CharList [], AbstractType 4 5 6]"

definition stub_numpy :: numpy_env where
  "stub_numpy = \<lparr>can_alloc = (\<lambda>n. n \<le> 2 ^ 27), wide_count = (\<lambda>_. Inl TypeError),
     wide_index = (\<lambda>_ _. Inl TypeError)\<rparr>"

definition w_new :: world where
  "w_new = ModelBasedAgent caller_store stub_numpy (\<lambda>_. 0) (99/100) (\<lambda>_ _. 1)"

definition w_ready :: world where
  "w_ready = snd (agent_init (\<lambda>_. stub_spec) [] w_new)"

definition w_started :: world where
  "w_started = snd (agent_start 3 w_ready)"

definition w_stepped :: world where
  "w_stepped = snd (agent_step 1 7 w_started)"

text \<open>
  Variants of the scenario: the model the scenario constructs, the discrete dimensions
  \<open>[[0, 1], [0, 2]]\<close> of the specification's example, and no discrete dimension.
\<close>

definition stub_model :: model_inst where
  "stub_model = \<lparr>m_numDiscStates = 2, m_doubleObservations = [(Num 0, Num 1)],
     m_numActions = 2, m_rewardRange = (Num 0, Num 2)\<rparr>"

definition grid_spec :: TaskSpecT where
  "grid_spec = stub_spec\<lparr>getIntObservations := [(0, 1), (0, 2)]\<rparr>"

definition w_grid :: world where
  "w_grid = snd (agent_init (\<lambda>_. grid_spec) [] w_new)"

definition plain_spec :: TaskSpecT where
  "plain_spec = stub_spec\<lparr>getIntObservations := []\<rparr>"

definition w_plain :: world where
  "w_plain = snd (agent_init (\<lambda>_. plain_spec) [] w_new)"



definition square_spec :: TaskSpecT where
  "square_spec = stub_spec\<lparr>getIntObservations := [(0, 94906266), (0, 94906266)]\<rparr>"

definition w_square :: world where
  "w_square = snd (agent_init (\<lambda>_. square_spec) [] w_new)"

text \<open>
  A task specification whose actions are declared as \<open>[1, 2]\<close>, one whose actions are
  declared as \<open>[-3, -1]\<close>, and one that the parser could not parse.
\<close>

definition shifted_spec :: TaskSpecT where
  "shifted_spec = stub_spec\<lparr>getIntActions := [(Num 1, Num 2)]\<rparr>"

definition negative_spec :: TaskSpecT where
  "negative_spec = stub_spec\<lparr>getIntActions := [(Num (- 3), Num (- 1))]\<rparr>"

definition w_negative :: world where
  "w_negative = snd (agent_init (\<lambda>_. negative_spec) [] w_new)"

definition broken_spec :: TaskSpecT where
  "broken_spec = stub_spec\<lparr>valid := False\<rparr>"

section \<open>The state encoder\<close>

text \<open>Operations whose exact result fits leave an \<^verbatim>\<open>int64\<close> as it is.\<close>

lemma wrap64_id: "int64 x \<Longrightarrow> wrap64 x = x"
  by (simp add: wrap64_def int64_def)


lemma radix_Nil: "radix [] = 1"
  by (simp add: radix_def)

lemma radix_Cons: "radix (b # ds) = (snd b - fst b + 1) * radix ds"
  by (simp add: radix_def)

lemma radix_pos: "\<forall>b\<in>set ds. fst b \<le> snd b \<Longrightarrow> 0 < radix ds"
  by (induction ds) (simp_all add: radix_Nil radix_Cons)



















text \<open>
  Line 62 is exact while the product stays below \<open>2^53\<close>: no size wraps and no product
  is rounded. A dimension of size zero makes the product zero, whatever the other sizes.
\<close>

lemma round53_id: "\<bar>n\<bar> < 2 ^ 53 \<Longrightarrow> round53 n = n"
proof -
  assume a: "\<bar>n\<bar> < 2 ^ 53"
  then have "bitlen \<bar>n\<bar> \<le> 53" by (simp add: bitlen_le_iff_power)
  then have "nat (bitlen \<bar>n\<bar> - 53) = 0" by simp
  then show ?thesis by (simp add: round53_def Let_def)
qed

lemma float64_of_int_id: "\<bar>n\<bar> < 2 ^ 53 \<Longrightarrow> float64_of_int n = Finite n"
proof -
  assume a: "\<bar>n\<bar> < 2 ^ 53"
  have "(2::int) ^ 53 < 2 ^ 1024" by (rule power_strict_increasing) simp_all
  with a have "\<bar>n\<bar> < 2 ^ 1024" by linarith
  then show ?thesis using a by (simp add: float64_of_int_def round53_id Let_def)
qed

lemma fmul_int_exact:
  "\<bar>x * m\<bar> < 2 ^ 53 \<Longrightarrow> \<bar>m\<bar> < 2 ^ 53 \<Longrightarrow> fmul_int (Finite x) m = Finite (x * m)"
  by (simp add: fmul_int_def round53_id float64_of_int_id)

lemma round53_0: "round53 0 = 0"
  by (simp add: round53_id)

lemma fmul_int_zero: "fmul_int a 0 = Finite 0 \<or> fmul_int a 0 = NaN"
  by (cases a) (simp_all add: fmul_int_def float64_of_int_id round53_0)

lemma fmul_int_absorb:
  "a = Finite 0 \<or> a = NaN \<Longrightarrow> fmul_int a m = Finite 0 \<or> fmul_int a m = NaN"
  by (auto simp: fmul_int_def float64_of_int_id)

lemma foldl_absorb:
  "a = Finite 0 \<or> a = NaN \<Longrightarrow>
   foldl (\<lambda>a b. fmul_int a (wrap64 (wrap64 (snd b - fst b) + 1))) a ds = Finite 0
   \<or> foldl (\<lambda>a b. fmul_int a (wrap64 (wrap64 (snd b - fst b) + 1))) a ds = NaN"
proof (induction ds arbitrary: a)
  case Nil
  then show ?case by simp
next
  case (Cons b ds)
  have "fmul_int a (wrap64 (wrap64 (snd b - fst b) + 1)) = Finite 0
        \<or> fmul_int a (wrap64 (wrap64 (snd b - fst b) + 1)) = NaN"
    using Cons.prems by (rule fmul_int_absorb)
  from Cons.IH[OF this] show ?case by simp
qed

lemma foldl_zero_row:
  "b \<in> set ds \<Longrightarrow> snd b - fst b + 1 = 0 \<Longrightarrow>
   foldl (\<lambda>a b. fmul_int a (wrap64 (wrap64 (snd b - fst b) + 1))) a ds = Finite 0
   \<or> foldl (\<lambda>a b. fmul_int a (wrap64 (wrap64 (snd b - fst b) + 1))) a ds = NaN"
proof (induction ds arbitrary: a)
  case Nil
  then show ?case by simp
next
  case (Cons c ds)
  show ?case
  proof (cases "snd c - fst c + 1 = 0")
    case True
    then have "snd c - fst c = - 1" by simp
    then have "wrap64 (wrap64 (snd c - fst c) + 1) = 0" by (simp add: wrap64_def)
    then have "fmul_int a (wrap64 (wrap64 (snd c - fst c) + 1)) = Finite 0
        \<or> fmul_int a (wrap64 (wrap64 (snd c - fst c) + 1)) = NaN"
      using fmul_int_zero[of a] by simp
    from foldl_absorb[OF this] show ?thesis by simp
  next
    case False
    with Cons.prems have "b \<in> set ds" by auto
    from Cons.IH[OF this Cons.prems(2)] show ?thesis by simp
  qed
qed

lemma size_small:
  assumes "\<bar>snd b - fst b + 1\<bar> < 2 ^ 53"
  shows "wrap64 (wrap64 (snd b - fst b) + 1) = snd b - fst b + 1"
proof -
  have "int64 (snd b - fst b)" using assms by (simp add: int64_def) linarith
  then have "wrap64 (snd b - fst b) = snd b - fst b" by (rule wrap64_id)
  moreover have "int64 (snd b - fst b + 1)" using assms by (simp add: int64_def) linarith
  then have "wrap64 (snd b - fst b + 1) = snd b - fst b + 1" by (rule wrap64_id)
  ultimately show ?thesis by simp
qed

lemma foldl_exact:
  "\<forall>k\<le>length ds. \<bar>a * radix (take k ds)\<bar> < 2 ^ 53 \<Longrightarrow>
   foldl (\<lambda>a b. fmul_int a (wrap64 (wrap64 (snd b - fst b) + 1))) (Finite a) ds
     = Finite (a * radix ds)"
proof (induction ds arbitrary: a)
  case Nil
  then show ?case by (simp add: radix_Nil)
next
  case (Cons b ds)
  let ?m = "snd b - fst b + 1"
  show ?case
  proof (cases "a = 0")
    case True
    have "foldl (\<lambda>a b. fmul_int a (wrap64 (wrap64 (snd b - fst b) + 1))) (Finite 0) (b # ds)
          = Finite (0 * radix (b # ds))"
    proof -
      have z: "fmul_int (Finite 0) (wrap64 (wrap64 (snd b - fst b) + 1)) = Finite 0"
        by (simp add: fmul_int_def float64_of_int_id)
      have "\<forall>k\<le>length ds. \<bar>0 * radix (take k ds)\<bar> < 2 ^ 53" by simp
      from Cons.IH[OF this] z show ?thesis by simp
    qed
    then show ?thesis by (simp add: True)
  next
    case False
    have "Suc 0 \<le> length (b # ds)" by simp
    with Cons.prems have "\<bar>a * radix (take (Suc 0) (b # ds))\<bar> < 2 ^ 53" by blast
    then have am: "\<bar>a * ?m\<bar> < 2 ^ 53" by (simp add: radix_Cons radix_Nil)
    have "\<bar>?m\<bar> = 1 * \<bar>?m\<bar>" by simp
    also have "\<dots> \<le> \<bar>a\<bar> * \<bar>?m\<bar>" using False by (intro mult_right_mono) simp_all
    finally have m: "\<bar>?m\<bar> < 2 ^ 53" using am by (simp add: abs_mult)
    have w: "wrap64 (wrap64 (snd b - fst b) + 1) = ?m" using m by (rule size_small)
    have f: "fmul_int (Finite a) ?m = Finite (a * ?m)" using am m by (rule fmul_int_exact)
    have "\<forall>k\<le>length ds. \<bar>a * ?m * radix (take k ds)\<bar> < 2 ^ 53"
    proof (intro allI impI)
      fix k assume "k \<le> length ds"
      then have "Suc k \<le> length (b # ds)" by simp
      with Cons.prems have "\<bar>a * radix (take (Suc k) (b # ds))\<bar> < 2 ^ 53" by blast
      then show "\<bar>a * ?m * radix (take k ds)\<bar> < 2 ^ 53" by (simp add: radix_Cons mult.assoc)
    qed
    from Cons.IH[OF this] show ?thesis by (simp add: w f radix_Cons mult.assoc)
  qed
qed

lemma radix_append: "radix (xs @ ys) = radix xs * radix ys"
  by (simp add: radix_def)

lemma radix_nonzero: "\<forall>b\<in>set ds. snd b - fst b + 1 \<noteq> 0 \<Longrightarrow> radix ds \<noteq> 0"
  by (induction ds) (simp_all add: radix_Nil radix_Cons)

lemma radix_take_le:
  assumes "\<forall>b\<in>set ds. snd b - fst b + 1 \<noteq> 0"
  shows "\<bar>radix (take k ds)\<bar> \<le> \<bar>radix ds\<bar>"
proof -
  have "\<forall>b\<in>set (drop k ds). snd b - fst b + 1 \<noteq> 0" using assms by (auto dest: in_set_dropD)
  then have "radix (drop k ds) \<noteq> 0" by (rule radix_nonzero)
  then have "1 \<le> \<bar>radix (drop k ds)\<bar>" by simp
  then have "\<bar>radix (take k ds)\<bar> * 1 \<le> \<bar>radix (take k ds)\<bar> * \<bar>radix (drop k ds)\<bar>"
    by (intro mult_left_mono) simp_all
  moreover have "radix ds = radix (take k ds) * radix (drop k ds)"
    using radix_append[of "take k ds" "drop k ds"] by simp
  ultimately show ?thesis by (simp add: abs_mult)
qed

lemma numDiscStates_of_radix:
  assumes "\<bar>radix ds\<bar> < 2 ^ 53" and "numDiscStates_of ds = Inr n"
  shows "n = radix ds"
proof (cases "\<exists>b\<in>set ds. snd b - fst b + 1 = 0")
  case True
  then obtain b where b: "b \<in> set ds" "snd b - fst b + 1 = 0" by blast
  then have "radix ds = 0"
    by (auto simp: radix_def prod_list_zero_iff)
  moreover have "n = 0"
    using foldl_zero_row[OF b, of "Finite 1"] assms(2)
    by (auto simp: numDiscStates_of_def py_int_def)
  ultimately show ?thesis by simp
next
  case False
  then have nz: "\<forall>b\<in>set ds. snd b - fst b + 1 \<noteq> 0" by blast
  have "\<forall>k\<le>length ds. \<bar>1 * radix (take k ds)\<bar> < 2 ^ 53"
    using radix_take_le[OF nz] assms(1) by (auto intro: le_less_trans)
  from foldl_exact[OF this] assms(2) show ?thesis
    by (simp add: numDiscStates_of_def py_int_def)
qed

lemma numDiscStates_of_exact:
  assumes "\<forall>b\<in>set ds. fst b \<le> snd b" and "radix ds < 2 ^ 53"
  shows "numDiscStates_of ds = Inr (radix ds)"
proof -
  have nz: "\<forall>b\<in>set ds. snd b - fst b + 1 \<noteq> 0" using assms(1) by auto
  have "0 < radix ds" using assms(1) by (rule radix_pos)
  then have "\<bar>radix ds\<bar> < 2 ^ 53" using assms(2) by simp
  then have "\<forall>k\<le>length ds. \<bar>1 * radix (take k ds)\<bar> < 2 ^ 53"
    using radix_take_le[OF nz] by (auto intro: le_less_trans)
  from foldl_exact[OF this] show ?thesis
    by (simp add: numDiscStates_of_def py_int_def)
qed

lemma numDiscStates_of_Nil: "numDiscStates_of [] = Inr 1"
  by (simp add: numDiscStates_of_def py_int_def)


section \<open>Running the methods\<close>

lemmas monad_defs = thn_def ret_def raise_def lift_def gets_def modify_def attr_def
  py_assert_def alloc_def deref_def first_def

lemma agent_init_invalid:
  "\<not> valid (P s) \<Longrightarrow> agent_init P s w = (Inl (NameError ''taskSpecString''), w)"
  by (simp add: agent_init_def monad_defs)

lemma agent_init_no_features:
  "valid (P s) \<Longrightarrow> getDoubleObservations (P s) = [] \<Longrightarrow> getIntObservations (P s) = [] \<Longrightarrow>
   agent_init P s w =
     (Inl (AssertionError ''expecting at least one continuous or discrete observation''), w)"
  by (simp add: agent_init_def monad_defs)

lemma agent_init_success:
  assumes "valid (P s)"
    and "getDoubleObservations (P s) \<noteq> [] \<or> getIntObservations (P s) \<noteq> []"
    and "getIntActions (P s) = [(Num lo, Num hi)]"
    and "getDoubleActions (P s) = []"
    and "getRewardRange (P s) = rr # rest"
    and "count_states (numpy w) (getIntObservations (P s)) = Inr n"
  shows "agent_init P s w =
     (Inr (), w\<lparr>numStates := Some (length (getDoubleObservations (P s))),
                discStates := Some (getIntObservations (P s)),
                numDiscStates := Some (n),
                numActions := Some (hi + 1),
                model := Some \<lparr>m_numDiscStates = n,
                   m_doubleObservations = getDoubleObservations (P s),
                   m_numActions = hi + 1, m_rewardRange = rr\<rparr>,
                planner := Some \<lparr>p_gamma = gamma w,
                   p_model = \<lparr>m_numDiscStates = n,
                     m_doubleObservations = getDoubleObservations (P s),
                     m_numActions = hi + 1, m_rewardRange = rr\<rparr>,
                   p_calls = []\<rparr>,
                heap := heap w @
                  [IntList [], DoubleList [], CharList [],
                   AbstractType (length (heap w)) (length (heap w) + 1) (length (heap w) + 2),
                   IntList [], DoubleList [], CharList [],
                   AbstractType (length (heap w) + 4) (length (heap w) + 5) (length (heap w) + 6)],
                lastAction := length (heap w) + 3,
                lastObservation := length (heap w) + 7\<rparr>)"
  using assms
  by (auto simp add: agent_init_def monad_defs new_abstract_type_def isSpecial_def Let_def)

lemma snapshotD:
  assumes "snapshot h r = Some (xs, ys, cs)"
  shows "\<exists>i d c. r < length h \<and> h ! r = AbstractType i d c \<and> i < length h \<and> d < length h
           \<and> c < length h \<and> h ! i = IntList xs \<and> h ! d = DoubleList ys \<and> h ! c = CharList cs"
  using assms by (auto simp: snapshot_def split: if_splits obj.splits)

lemma intArray_of_eq:
  "snapshot (heap w) r = Some (xs, ys, cs) \<Longrightarrow> intArray_of r w = (Inr xs, w)"
  by (drule snapshotD) (auto simp: intArray_of_def monad_defs)

lemma doubleArray_of_eq:
  "snapshot (heap w) r = Some (xs, ys, cs) \<Longrightarrow> doubleArray_of r w = (Inr ys, w)"
  by (drule snapshotD) (auto simp: doubleArray_of_def monad_defs)

lemma getDiscState_world: "snd (getDiscState ints w) = w"
  by (simp add: getDiscState_def np_zeros_def monad_defs split: option.splits)

lemma getDiscState_fields:
  "numDiscStates w' = numDiscStates w \<Longrightarrow> discStates w' = discStates w \<Longrightarrow>
   numpy w' = numpy w \<Longrightarrow> fst (getDiscState ints w') = fst (getDiscState ints w)"
  by (simp add: getDiscState_def np_zeros_def monad_defs split: option.splits)

lemma getDiscState_run:
  "fst (getDiscState ints w) = Inr d \<Longrightarrow> getDiscState ints w = (Inr d, w)"
  using getDiscState_world[of ints w] by (cases "getDiscState ints w") simp

lemma getAction_exploit:
  assumes "\<not> randGenerator w 0 < epsilon w" and "planner w = Some p"
  shows "getAction state d w =
     (Inr (planner_class w p (of_int d # state)),
      w\<lparr>randGenerator := (\<lambda>n. randGenerator w (Suc n)),
        planner := Some (p\<lparr>p_calls := p_calls p @ [GetAction (of_int d # state)]\<rparr>)\<rparr>)"
  using assms
  by (simp add: getAction_def rand_random_def planner_getAction_def fused_def assign_tail_def monad_defs)

lemma getAction_explore:
  assumes "randGenerator w 0 < epsilon w" and "numActions w = Some n" and "0 < n"
  shows "getAction state d w =
     (Inr \<lfloor>randGenerator w 1 * of_int n\<rfloor>,
      w\<lparr>randGenerator := (\<lambda>i. randGenerator w (Suc (Suc i)))\<rparr>)"
  using assms
  by (simp add: getAction_def rand_random_def rand_randint_def monad_defs)

lemma getAction_frame:
  "heap (snd (getAction state d w)) = heap w"
  "lastAction (snd (getAction state d w)) = lastAction w"
  "lastObservation (snd (getAction state d w)) = lastObservation w"
  "numStates (snd (getAction state d w)) = numStates w"
  "discStates (snd (getAction state d w)) = discStates w"
  "numDiscStates (snd (getAction state d w)) = numDiscStates w"
  "numActions (snd (getAction state d w)) = numActions w"
  "epsilon (snd (getAction state d w)) = epsilon w"
  "planner_class (snd (getAction state d w)) = planner_class w"
  "numpy (snd (getAction state d w)) = numpy w"
  by (simp_all add: getAction_def rand_random_def rand_randint_def planner_getAction_def
      fused_def assign_tail_def monad_defs split: option.splits)

lemma store_context:
  assumes "snapshot (heap w) obs = Some (xs, ys, cs)"
  shows "thn new_abstract_type (\<lambda>returnAction.
         thn (set_intArray returnAction [a]) (\<lambda>_.
         thn (deepcopy returnAction) (\<lambda>la.
         thn (modify (\<lambda>w. w\<lparr>lastAction := la\<rparr>)) (\<lambda>_.
         thn (deepcopy obs) (\<lambda>ob.
         thn (modify (\<lambda>w. w\<lparr>lastObservation := ob\<rparr>)) (\<lambda>_.
         ret returnAction)))))) w =
       (Inr (length (heap w) + 3),
        w\<lparr>heap := heap w @ context_cells (length (heap w)) a xs ys cs,
          lastAction := length (heap w) + 8,
          lastObservation := length (heap w) + 12\<rparr>)"
proof -
  from snapshotD[OF assms] obtain i d c where
    c: "obs < length (heap w)" "heap w ! obs = AbstractType i d c" "i < length (heap w)"
       "d < length (heap w)" "c < length (heap w)" "heap w ! i = IntList xs"
       "heap w ! d = DoubleList ys" "heap w ! c = CharList cs"
    by blast
  show ?thesis
    using c
    by (simp add: new_abstract_type_def set_intArray_def deepcopy_def copy_cell_def
        context_cells_def monad_defs nth_append list_update_append eval_nat_numeral)
qed


lemma thn_run: "m w = (Inr x, w') \<Longrightarrow> thn m f w = f x w'"
  by (simp add: thn_def)

lemma thn_gets: "thn (gets g) f w = f (g w) w"
  by (simp add: thn_def gets_def)

lemma thn_attr: "g w = Some x \<Longrightarrow> thn (attr g name) f w = f x w"
  by (simp add: thn_def attr_def)

lemma thn_lift: "thn (lift (Inr x)) f = f x"
  by (simp add: thn_def lift_def)

lemma thn_first: "thn (first (x # xs)) f = f x"
  by (simp add: thn_def first_def ret_def)

lemma thn_intArray_of:
  "snapshot (heap w) r = Some (xs, ys, cs) \<Longrightarrow> thn (intArray_of r) f w = f xs w"
  by (simp add: thn_def intArray_of_eq)

lemma thn_doubleArray_of:
  "snapshot (heap w) r = Some (xs, ys, cs) \<Longrightarrow> thn (doubleArray_of r) f w = f ys w"
  by (simp add: thn_def doubleArray_of_eq)

lemma thn_getDiscState:
  "fst (getDiscState ints w) = Inr d \<Longrightarrow> thn (getDiscState ints) f w = f d w"
  by (simp add: thn_def getDiscState_run)

lemma thn_getAction:
  "fst (getAction state d w) = Inr a \<Longrightarrow>
   thn (getAction state d) f w = f a (snd (getAction state d w))"
  by (cases "getAction state d w") (simp add: thn_def)

lemma updateExperience_eq:
  "planner w = Some p \<Longrightarrow>
   planner_updateExperience phi a phi' r w =
     (Inr (), w\<lparr>planner := Some (p\<lparr>p_calls := p_calls p @ [UpdateExperience phi a phi' r]\<rparr>)\<rparr>)"
  by (simp add: planner_updateExperience_def thn_def attr_def modify_def)

lemma thn_updateExperience:
  "planner w = Some p \<Longrightarrow>
   thn (planner_updateExperience phi a phi' r) f w =
     f () (w\<lparr>planner := Some (p\<lparr>p_calls := p_calls p @ [UpdateExperience phi a phi' r]\<rparr>)\<rparr>)"
  by (simp add: planner_updateExperience_def thn_def attr_def modify_def)

lemma agent_start_eq:
  assumes obs: "snapshot (heap w) obs = Some (xs, ys, cs)"
    and d: "fst (getDiscState xs w) = Inr d"
    and a: "fst (getAction ys d w) = Inr a"
  shows "agent_start obs w =
     (Inr (length (heap w) + 3),
      (snd (getAction ys d w))
        \<lparr>heap := heap w @ context_cells (length (heap w)) a xs ys cs,
         lastAction := length (heap w) + 8,
         lastObservation := length (heap w) + 12\<rparr>)"
proof -
  have obs2: "snapshot (heap (snd (getAction ys d w))) obs = Some (xs, ys, cs)"
    using obs by (simp add: getAction_frame)
  show ?thesis
    unfolding agent_start_def
    by (simp only: thn_doubleArray_of[OF obs] thn_intArray_of[OF obs] thn_getDiscState[OF d]
        thn_getAction[OF a] store_context[OF obs2] getAction_frame)
qed

lemma agent_step_eq:
  assumes obs: "snapshot (heap w) obs = Some (xs, ys, cs)"
    and lo: "snapshot (heap w) (lastObservation w) = Some (lxs, lys, lcs)"
    and la: "snapshot (heap w) (lastAction w) = Some (la # rest, lad, lac)"
    and nd: "fst (getDiscState xs w) = Inr nd"
    and ld: "fst (getDiscState lxs w) = Inr ld"
    and n: "numStates w = Some n"
    and phi_t: "fused n ld lys = Inr phi_t"
    and phi_tp: "fused n nd ys = Inr phi_tp"
    and p: "planner w = Some p"
    and w1: "w1 = w\<lparr>planner := Some (p\<lparr>p_calls := p_calls p @
                      [UpdateExperience phi_t la (Some phi_tp) reward]\<rparr>)\<rparr>"
    and a: "fst (getAction ys nd w1) = Inr a"
  shows "agent_step reward obs w =
     (Inr (length (heap w) + 3),
      (snd (getAction ys nd w1))
        \<lparr>heap := heap w @ context_cells (length (heap w)) a xs ys cs,
         lastAction := length (heap w) + 8,
         lastObservation := length (heap w) + 12\<rparr>)"
proof -
  have obs2: "snapshot (heap (snd (getAction ys nd w1))) obs = Some (xs, ys, cs)"
    using obs by (simp add: getAction_frame w1)
  have h: "heap (snd (getAction ys nd w1)) = heap w"
    by (simp add: getAction_frame w1)
  show ?thesis
    unfolding agent_step_def
    by (simp only: thn_doubleArray_of[OF obs] thn_gets thn_doubleArray_of[OF lo]
        thn_intArray_of[OF la] thn_first thn_intArray_of[OF obs] thn_getDiscState[OF nd]
        thn_intArray_of[OF lo] thn_getDiscState[OF ld] thn_attr[of numStates w n, OF n] phi_t phi_tp thn_lift
        thn_updateExperience[OF p] w1[symmetric] thn_getAction[OF a] store_context[OF obs2] h)
qed

lemma agent_end_eq:
  assumes lo: "snapshot (heap w) (lastObservation w) = Some (lxs, lys, lcs)"
    and la: "snapshot (heap w) (lastAction w) = Some (la # rest, lad, lac)"
    and ld: "fst (getDiscState lxs w) = Inr ld"
    and n: "numStates w = Some n"
    and phi_t: "fused n ld lys = Inr phi_t"
    and p: "planner w = Some p"
  shows "agent_end reward w =
     (Inr (), w\<lparr>planner := Some (p\<lparr>p_calls := p_calls p @
                      [UpdateExperience phi_t la None reward]\<rparr>)\<rparr>)"
  unfolding agent_end_def
  by (simp only: thn_gets thn_doubleArray_of[OF lo] thn_intArray_of[OF la] thn_first
      thn_intArray_of[OF lo] thn_getDiscState[OF ld] thn_attr[of numStates w n, OF n] phi_t thn_lift
      updateExperience_eq[OF p])


section \<open>The scenario, evaluated\<close>

lemma w_new_eq:
  "w_new = \<lparr>heap = caller_store @
       [IntList [], DoubleList [], CharList [], AbstractType 8 9 10,
        IntList [], DoubleList [], CharList [], AbstractType 12 13 14],
     numpy = stub_numpy, randGenerator = (\<lambda>_. 0), lastAction = 11, lastObservation = 15,
     gamma = 99/100, planner_class = (\<lambda>_ _. 1), model = None, planner = None, epsilon = 0,
     numStates = None, discStates = None, numDiscStates = None, numActions = None\<rparr>"
  by (simp add: w_new_def ModelBasedAgent_def caller_store_def)


lemma count_states_exact:
  "int64_rows ds \<Longrightarrow> \<forall>b\<in>set ds. fst b \<le> snd b \<Longrightarrow> radix ds < 2 ^ 53 \<Longrightarrow>
   count_states env ds = Inr (radix ds)"
  by (simp add: count_states_def numDiscStates_of_exact)

lemma count_states_stub: "count_states stub_numpy [(0, 1)] = Inr 2"
  by (subst count_states_exact) (simp_all add: int64_rows_def int64_def radix_def)

lemma agent_init_w_new:
  "agent_init (\<lambda>_. stub_spec) [] w_new =
     (Inr (), \<lparr>heap = caller_store @
       [IntList [], DoubleList [], CharList [], AbstractType 8 9 10,
        IntList [], DoubleList [], CharList [], AbstractType 12 13 14,
        IntList [], DoubleList [], CharList [], AbstractType 16 17 18,
        IntList [], DoubleList [], CharList [], AbstractType 20 21 22],
     numpy = stub_numpy, randGenerator = (\<lambda>_. 0), lastAction = 19, lastObservation = 23,
     gamma = 99/100, planner_class = (\<lambda>_ _. 1), model = Some stub_model,
     planner = Some \<lparr>p_gamma = 99/100, p_model = stub_model, p_calls = []\<rparr>, epsilon = 0,
     numStates = Some 1, discStates = Some [(0, 1)], numDiscStates = Some 2,
     numActions = Some 2\<rparr>)"
  by (subst agent_init_success[where lo=0 and hi=1 and rr="(Num 0, Num 2)" and rest="[]" and n=2])
     (simp_all add: stub_spec_def w_new_eq count_states_stub stub_model_def caller_store_def)

lemma agent_init_Inr:
  assumes "fst (agent_init P s w) = Inr ()"
  shows "valid (P s) \<and> (getDoubleObservations (P s) \<noteq> [] \<or> getIntObservations (P s) \<noteq> [])
         \<and> (\<exists>lo hi. getIntActions (P s) = [(Num lo, Num hi)])
         \<and> getDoubleActions (P s) = []
         \<and> (\<exists>rr rest. getRewardRange (P s) = rr # rest)
         \<and> (\<exists>n. count_states (numpy w) (getIntObservations (P s)) = Inr n)"
  using assms
  by (auto simp: agent_init_def monad_defs new_abstract_type_def isSpecial_def Let_def
      length_Suc_conv
      split: if_splits bound.splits list.splits prod.splits sum.splits)



lemma w_ready_eq:
  "w_ready = \<lparr>heap = caller_store @
       [IntList [], DoubleList [], CharList [], AbstractType 8 9 10,
        IntList [], DoubleList [], CharList [], AbstractType 12 13 14,
        IntList [], DoubleList [], CharList [], AbstractType 16 17 18,
        IntList [], DoubleList [], CharList [], AbstractType 20 21 22],
     numpy = stub_numpy, randGenerator = (\<lambda>_. 0), lastAction = 19, lastObservation = 23,
     gamma = 99/100, planner_class = (\<lambda>_ _. 1), model = Some stub_model,
     planner = Some \<lparr>p_gamma = 99/100, p_model = stub_model, p_calls = []\<rparr>, epsilon = 0,
     numStates = Some 1, discStates = Some [(0, 1)], numDiscStates = Some 2,
     numActions = Some 2\<rparr>"
  by (simp add: w_ready_def agent_init_w_new)

lemma w_ready_length: "length (heap w_ready) = 24"
  by (simp add: w_ready_eq caller_store_def)

lemma w_ready_obs:
  "snapshot (heap w_ready) 3 = Some ([0], [1/2], [])"
  "snapshot (heap w_ready) 7 = Some ([1], [7/10], [])"
  by (simp_all add: w_ready_eq caller_store_def snapshot_def)

lemma discIndex_stub:
  "discIndex [(0, 1)] [0] = Inr 0"
  "discIndex [(0, 1)] [1] = Inr 1"
  by (simp_all add: discIndex_def broadcast_def multipliers_def cumprod_def wrap64_def)

lemma w_ready_disc:
  "fst (getDiscState [0] w_ready) = Inr 0"
  "fst (getDiscState [1] w_ready) = Inr 1"
  by (simp_all add: getDiscState_def np_zeros_def monad_defs w_ready_eq stub_numpy_def
      index_state_def int64_rows_def int64_def discIndex_stub)

lemma w_ready_getAction:
  "getAction [1/2] 0 w_ready =
     (Inr 1, w_ready\<lparr>planner := Some \<lparr>p_gamma = 99/100, p_model = stub_model,
                                      p_calls = [GetAction [0, 1/2]]\<rparr>\<rparr>)"
  by (subst getAction_exploit[where p="\<lparr>p_gamma = 99/100, p_model = stub_model, p_calls = []\<rparr>"])
     (simp_all add: w_ready_eq)

lemma agent_start_w_ready:
  "agent_start 3 w_ready =
     (Inr 27, w_ready\<lparr>planner := Some \<lparr>p_gamma = 99/100, p_model = stub_model,
                                       p_calls = [GetAction [0, 1/2]]\<rparr>,
                      heap := heap w_ready @ context_cells 24 1 [0] [1/2] [],
                      lastAction := 32, lastObservation := 36\<rparr>)"
  by (subst agent_start_eq[OF w_ready_obs(1) w_ready_disc(1), where a=1])
     (simp_all add: w_ready_getAction w_ready_length)


lemma w_started_eq:
  "w_started = w_ready\<lparr>planner := Some \<lparr>p_gamma = 99/100, p_model = stub_model,
                                       p_calls = [GetAction [0, 1/2]]\<rparr>,
                      heap := heap w_ready @ context_cells 24 1 [0] [1/2] [],
                      lastAction := 32, lastObservation := 36\<rparr>"
  by (simp add: w_started_def agent_start_w_ready)

lemma w_started_fields:
  "length (heap w_started) = 37"
  "lastAction w_started = 32"
  "lastObservation w_started = 36"
  "planner w_started = Some \<lparr>p_gamma = 99/100, p_model = stub_model,
                             p_calls = [GetAction [0, 1/2]]\<rparr>"
  "numStates w_started = Some 1"
  "discStates w_started = Some [(0, 1)]"
  "numDiscStates w_started = Some 2"
  "numActions w_started = Some 2"
  "epsilon w_started = 0"
  "randGenerator w_started = (\<lambda>_. 0)"
  "planner_class w_started = (\<lambda>_ _. 1)"
  "numpy w_started = stub_numpy"
  by (simp_all add: w_started_eq w_ready_length context_cells_def, simp_all add: w_ready_eq)

lemma w_started_obs:
  "snapshot (heap w_started) 7 = Some ([1], [7/10], [])"
  "snapshot (heap w_started) 36 = Some ([0], [1/2], [])"
  "snapshot (heap w_started) 32 = Some ([1], [], [])"
  "snapshot (heap w_started) 27 = Some ([1], [], [])"
  by (simp_all add: w_started_eq w_ready_eq caller_store_def context_cells_def snapshot_def)

lemma w_started_disc:
  "fst (getDiscState [0] w_started) = Inr 0"
  "fst (getDiscState [1] w_started) = Inr 1"
  by (simp_all add: getDiscState_def np_zeros_def monad_defs w_started_fields stub_numpy_def
      index_state_def int64_rows_def int64_def discIndex_stub)

lemma fused_stub:
  "fused 1 0 [1/2] = Inr [0, 1/2]"
  "fused 1 1 [7/10] = Inr [1, 7/10]"
  by (simp_all add: fused_def assign_tail_def)

section \<open>The claims about the state encoder\<close>

lemma agent_init_fields:
  assumes "valid (P s)"
    and "getDoubleObservations (P s) \<noteq> [] \<or> getIntObservations (P s) \<noteq> []"
    and "getIntActions (P s) = [(Num lo, Num hi)]"
    and "getDoubleActions (P s) = []"
    and "getRewardRange (P s) = rr # rest"
    and "count_states (numpy w) (getIntObservations (P s)) = Inr n"
  shows "fst (agent_init P s w) = Inr ()"
    and "numStates (snd (agent_init P s w)) = Some (length (getDoubleObservations (P s)))"
    and "discStates (snd (agent_init P s w)) = Some (getIntObservations (P s))"
    and "numDiscStates (snd (agent_init P s w)) = Some n"
    and "numActions (snd (agent_init P s w)) = Some (hi + 1)"
    and "epsilon (snd (agent_init P s w)) = epsilon w"
    and "randGenerator (snd (agent_init P s w)) = randGenerator w"
    and "planner_class (snd (agent_init P s w)) = planner_class w"
    and "numpy (snd (agent_init P s w)) = numpy w"
  by (simp_all add: agent_init_success[where P=P and s=s, OF assms])

lemma numpy_w_new: "numpy w_new = stub_numpy"
  by (simp add: w_new_def ModelBasedAgent_def Let_def)

lemma count_states_grid: "count_states stub_numpy [(0, 1), (0, 2)] = Inr 6"
  by (subst count_states_exact) (simp_all add: int64_rows_def int64_def radix_def)

lemma grid_fields:
  "fst (agent_init (\<lambda>_. grid_spec) [] w_new) = Inr ()"
  "discStates w_grid = Some [(0, 1), (0, 2)]"
  "numDiscStates w_grid = Some 6"
  "numpy w_grid = stub_numpy"
  unfolding w_grid_def
  by (subst agent_init_fields[where lo=0 and hi=1 and rr="(Num 0, Num 2)" and rest="[]" and n=6];
      simp add: grid_spec_def stub_spec_def numpy_w_new count_states_grid)+

lemma count_states_plain: "count_states stub_numpy [] = Inr 1"
  by (simp add: count_states_def int64_rows_def numDiscStates_of_Nil)

lemma plain_fields:
  "fst (agent_init (\<lambda>_. plain_spec) [] w_new) = Inr ()"
  "discStates w_plain = Some []"
  "numDiscStates w_plain = Some 1"
  unfolding w_plain_def
  by (subst agent_init_fields[where lo=0 and hi=1 and rr="(Num 0, Num 2)" and rest="[]" and n=1];
      simp add: plain_spec_def stub_spec_def numpy_w_new count_states_plain)+









text \<open>
  The theorem needs \<open>min \<le> max\<close>: two dimensions with empty ranges can have a product
  of sizes above \<open>1\<close> and no valid combination.
\<close>

lemma empty_ranges:
  "radix [(0, -3), (0, -4)] = 6 \<and> declared_range [(0, -3), (0, -4)] = {}"
  by (auto simp: radix_def declared_range_def list_all2_Cons2)

text \<open>
  C7. After an initialisation that returns, for discrete observation dimensions whose
  bounds are \<^verbatim>\<open>int64\<close> and whose sizes \<open>max - min + 1\<close> have a product below \<open>2^53\<close> in
  absolute value, \<^verbatim>\<open>numDiscStates\<close> is that product, and it is \<open>1\<close> when the task
  specification declares no discrete observation dimension.
\<close>

theorem agent_init_numDiscStates:
  assumes "fst (agent_init P s w) = Inr ()"
    and "int64_rows (getIntObservations (P s))"
    and "\<bar>prod_list (map (\<lambda>b. snd b - fst b + 1) (getIntObservations (P s)))\<bar> < 2 ^ 53"
  shows "numDiscStates (snd (agent_init P s w))
           = Some (prod_list (map (\<lambda>b. snd b - fst b + 1) (getIntObservations (P s))))
         \<and> (getIntObservations (P s) = [] \<longrightarrow> numDiscStates (snd (agent_init P s w)) = Some 1)"
proof -
  from agent_init_Inr[OF assms(1)] obtain lo hi rr rest n where
    c: "valid (P s)" "getDoubleObservations (P s) \<noteq> [] \<or> getIntObservations (P s) \<noteq> []"
       "getIntActions (P s) = [(Num lo, Num hi)]" "getDoubleActions (P s) = []"
       "getRewardRange (P s) = rr # rest"
       "count_states (numpy w) (getIntObservations (P s)) = Inr n"
    by blast
  have f: "numDiscStates (snd (agent_init P s w)) = Some n"
    by (rule agent_init_fields(4)[where P=P and s=s, OF c])
  from c(6) assms(2) have "numDiscStates_of (getIntObservations (P s)) = Inr n"
    by (simp add: count_states_def)
  with assms(3) have "n = radix (getIntObservations (P s))"
    by (intro numDiscStates_of_radix) (simp_all add: radix_def)
  with f show ?thesis by (auto simp: radix_def)
qed

theorem agent_init_numDiscStates_witness:
  "fst (agent_init (\<lambda>_. grid_spec) [] w_new) = Inr ()
   \<and> numDiscStates (snd (agent_init (\<lambda>_. grid_spec) [] w_new)) = Some 6
   \<and> fst (agent_init (\<lambda>_. plain_spec) [] w_new) = Inr ()
   \<and> getIntObservations plain_spec = []
   \<and> numDiscStates (snd (agent_init (\<lambda>_. plain_spec) [] w_new)) = Some 1"
  using agent_init_numDiscStates[OF grid_fields(1)] agent_init_numDiscStates[OF plain_fields(1)]
    grid_fields(1) plain_fields(1)
  by (simp add: grid_spec_def plain_spec_def stub_spec_def int64_rows_def int64_def)

text \<open>
  Above \<open>2^53\<close> the product is rounded: for the two dimensions \<open>[0, 94906266]\<close> the
  product of the sizes is \<open>9007199515875289\<close>, and \<^verbatim>\<open>agent_init\<close> stores the even
  number below it.
\<close>

lemma round53_square: "round53 9007199515875289 = 9007199515875288"
proof -
  have "bitlen 9007199515875289 \<le> 54" by (simp add: bitlen_le_iff_power)
  moreover have "\<not> bitlen 9007199515875289 \<le> 53" by (simp add: bitlen_le_iff_power)
  ultimately have "bitlen 9007199515875289 = 54" by simp
  then show ?thesis by (simp add: round53_def Let_def)
qed

lemma numDiscStates_of_square:
  "numDiscStates_of [(0, 94906266), (0, 94906266)] = Inr 9007199515875288"
  by (simp add: numDiscStates_of_def py_int_def fmul_int_def float64_of_int_def Let_def wrap64_def
      round53_id round53_square)

lemma count_states_square:
  "count_states stub_numpy [(0, 94906266), (0, 94906266)] = Inr 9007199515875288"
  by (simp add: count_states_def int64_rows_def int64_def numDiscStates_of_square)

lemma square_fields:
  "fst (agent_init (\<lambda>_. square_spec) [] w_new) = Inr ()"
  "numDiscStates (snd (agent_init (\<lambda>_. square_spec) [] w_new)) = Some 9007199515875288"
  by (subst agent_init_fields[where lo=0 and hi=1 and rr="(Num 0, Num 2)" and rest="[]"
        and n=9007199515875288];
      simp add: square_spec_def stub_spec_def numpy_w_new count_states_square)+

theorem agent_init_numDiscStates_counterexample:
  "fst (agent_init (\<lambda>_. square_spec) [] w_new) = Inr ()
   \<and> int64_rows (getIntObservations square_spec)
   \<and> prod_list (map (\<lambda>b. snd b - fst b + 1) (getIntObservations square_spec))
       = 9007199515875289
   \<and> numDiscStates (snd (agent_init (\<lambda>_. square_spec) [] w_new)) = Some 9007199515875288"
  by (simp add: square_fields, simp add: square_spec_def stub_spec_def int64_rows_def int64_def)

text \<open>
  C8. Whenever \<^verbatim>\<open>numDiscStates\<close> is at most \<open>1\<close>, \<^verbatim>\<open>getDiscState\<close> returns \<open>0\<close> on
  every input; this is the case for no discrete dimension and for a single dimension
  whose range holds one value.
\<close>

theorem getDiscState_degenerate:
  assumes "numDiscStates w = Some n"
  shows "(n \<le> 1 \<longrightarrow> getDiscState state w = (Inr 0, w))
         \<and> (numDiscStates_of [] = Inr n \<longrightarrow> getDiscState state w = (Inr 0, w))
         \<and> (numDiscStates_of [(lo, lo)] = Inr n \<longrightarrow> getDiscState state w = (Inr 0, w))"
proof -
  have "numDiscStates_of [(lo, lo)] = Inr 1"
    by (simp add: numDiscStates_of_exact radix_def)
  with assms show ?thesis
    by (auto simp: getDiscState_def monad_defs numDiscStates_of_Nil)
qed

theorem getDiscState_degenerate_witness:
  "numDiscStates w_plain = Some 1 \<and> numDiscStates_of [] = Inr 1
   \<and> getDiscState [] w_plain = (Inr 0, w_plain)
   \<and> getDiscState [4, 2] w_plain = (Inr 0, w_plain)"
  using getDiscState_degenerate[OF plain_fields(3), of "[]"]
        getDiscState_degenerate[OF plain_fields(3), of "[4, 2]"] plain_fields(3)
  by (simp add: numDiscStates_of_Nil)

section \<open>The claims about the exploration policy and the initialisation\<close>

lemma floor_slice:
  fixes u :: real and n k :: int
  assumes "0 < n"
  shows "(\<lfloor>u * of_int n\<rfloor> = k) = (of_int k / of_int n \<le> u \<and> u < (of_int k + 1) / of_int n)"
proof -
  have n: "(0::real) < of_int n" using assms by simp
  have "(\<lfloor>u * of_int n\<rfloor> = k) = (of_int k \<le> u * of_int n \<and> u * of_int n < of_int k + 1)"
    by (rule floor_eq_iff)
  also have "\<dots> = (of_int k / of_int n \<le> u \<and> u < (of_int k + 1) / of_int n)"
    using n by (simp add: pos_divide_le_eq pos_less_divide_eq)
  finally show ?thesis .
qed

lemma floor_range:
  fixes u :: real and n :: int
  assumes "0 < n" and "0 \<le> u" and "u < 1"
  shows "0 \<le> \<lfloor>u * of_int n\<rfloor> \<and> \<lfloor>u * of_int n\<rfloor> < n"
proof -
  have n: "(0::real) < of_int n" using assms(1) by simp
  have "0 \<le> u * of_int n" using assms(2) n by simp
  moreover have "u * of_int n < of_int n" using assms(3) n by simp
  ultimately show ?thesis by (simp add: floor_less_iff)
qed

lemma getAction_explore_iff:
  assumes "randGenerator w 0 < epsilon w" and "numActions w = Some n" and "0 < n"
    and "0 \<le> randGenerator w 1" and "randGenerator w 1 < 1"
  shows "(\<exists>k. fst (getAction state d w) = Inr k \<and> 0 \<le> k \<and> k < n)
         \<and> (\<forall>k. (fst (getAction state d w) = Inr k)
                = (0 \<le> k \<and> k < n \<and> of_int k / of_int n \<le> randGenerator w 1
                   \<and> randGenerator w 1 < (of_int k + 1) / of_int n))"
proof -
  have g: "fst (getAction state d w) = Inr \<lfloor>randGenerator w 1 * of_int n\<rfloor>"
    by (simp add: getAction_explore[OF assms(1,2,3)])
  let ?f = "\<lfloor>randGenerator w 1 * of_int n\<rfloor>"
  have r: "0 \<le> ?f \<and> ?f < n"
    by (rule floor_range[OF assms(3,4,5)])
  have s: "(?f = k) = (of_int k / of_int n \<le> randGenerator w 1
                        \<and> randGenerator w 1 < (of_int k + 1) / of_int n)" for k
    by (rule floor_slice[OF assms(3)])
  have ex: "\<exists>k. fst (getAction state d w) = Inr k \<and> 0 \<le> k \<and> k < n"
    using r g by blast
  have all: "(fst (getAction state d w) = Inr k)
                = (0 \<le> k \<and> k < n \<and> of_int k / of_int n \<le> randGenerator w 1
                   \<and> randGenerator w 1 < (of_int k + 1) / of_int n)" for k
  proof
    assume "fst (getAction state d w) = Inr k"
    then have "?f = k" by (simp add: g)
    with r s[of k] show "0 \<le> k \<and> k < n \<and> of_int k / of_int n \<le> randGenerator w 1
                   \<and> randGenerator w 1 < (of_int k + 1) / of_int n" by blast
  next
    assume "0 \<le> k \<and> k < n \<and> of_int k / of_int n \<le> randGenerator w 1
                   \<and> randGenerator w 1 < (of_int k + 1) / of_int n"
    with s[of k] have "?f = k" by blast
    then show "fst (getAction state d w) = Inr k" by (simp add: g)
  qed
  from ex all show ?thesis by blast
qed

text \<open>
  C3. With \<open>\<epsilon> = 0\<close> and every draw of the generator in \<open>[0, 1)\<close>, \<^verbatim>\<open>getAction\<close>
  returns the answer of the planner to the fused vector, so the fixed action of a stub
  planner, and leaves a world in which the same holds for the next call. When the draw
  is below \<open>\<epsilon> > 0\<close> and the agent has \<open>n > 0\<close> actions, the returned action is \<open>k\<close>
  exactly when the next draw falls into the \<open>k\<close>-th of the \<open>n\<close> equal parts of
  \<open>[0, 1)\<close>: each action from \<open>0\<close> to \<open>n - 1\<close> is as likely as any other.
\<close>

theorem getAction_epsilon_greedy:
  "(epsilon w = 0 \<and> (\<forall>i. 0 \<le> randGenerator w i \<and> randGenerator w i < 1) \<and> planner w = Some p \<longrightarrow>
      fst (getAction state d w) = Inr (planner_class w p (of_int d # state))
      \<and> (planner_class w = (\<lambda>_ _. a) \<longrightarrow> fst (getAction state d w) = Inr a)
      \<and> epsilon (snd (getAction state d w)) = 0
      \<and> (\<forall>i. 0 \<le> randGenerator (snd (getAction state d w)) i
               \<and> randGenerator (snd (getAction state d w)) i < 1)
      \<and> planner (snd (getAction state d w))
          = Some (p\<lparr>p_calls := p_calls p @ [GetAction (of_int d # state)]\<rparr>)
      \<and> planner_class (snd (getAction state d w)) = planner_class w)
   \<and> (randGenerator w 0 < epsilon w \<and> numActions w = Some n \<and> 0 < n
        \<and> 0 \<le> randGenerator w 1 \<and> randGenerator w 1 < 1 \<longrightarrow>
      (\<exists>k. fst (getAction state d w) = Inr k \<and> 0 \<le> k \<and> k < n)
      \<and> (\<forall>k. (fst (getAction state d w) = Inr k)
             = (0 \<le> k \<and> k < n \<and> of_int k / of_int n \<le> randGenerator w 1
                \<and> randGenerator w 1 < (of_int k + 1) / of_int n)))"
proof (intro conjI impI)
  assume h: "epsilon w = 0 \<and> (\<forall>i. 0 \<le> randGenerator w i \<and> randGenerator w i < 1) \<and> planner w = Some p"
  then have ne: "\<not> randGenerator w 0 < epsilon w" by (simp add: not_less)
  from h have p: "planner w = Some p" by simp
  note e = getAction_exploit[OF ne p, of state d]
  show "fst (getAction state d w) = Inr (planner_class w p (of_int d # state))"
    by (simp add: e)
  show "fst (getAction state d w) = Inr a" if "planner_class w = (\<lambda>_ _. a)"
    using that by (simp add: e)
  show "epsilon (snd (getAction state d w)) = 0" using h by (simp add: e)
  show "\<forall>i. 0 \<le> randGenerator (snd (getAction state d w)) i
             \<and> randGenerator (snd (getAction state d w)) i < 1"
    using h by (simp add: e)
  show "planner (snd (getAction state d w))
          = Some (p\<lparr>p_calls := p_calls p @ [GetAction (of_int d # state)]\<rparr>)"
    by (simp add: e)
  show "planner_class (snd (getAction state d w)) = planner_class w" by (simp add: e)
next
  assume h: "randGenerator w 0 < epsilon w \<and> numActions w = Some n \<and> 0 < n
        \<and> 0 \<le> randGenerator w 1 \<and> randGenerator w 1 < 1"
  then have x: "(\<exists>k. fst (getAction state d w) = Inr k \<and> 0 \<le> k \<and> k < n)
         \<and> (\<forall>k. (fst (getAction state d w) = Inr k)
                = (0 \<le> k \<and> k < n \<and> of_int k / of_int n \<le> randGenerator w 1
                   \<and> randGenerator w 1 < (of_int k + 1) / of_int n))"
    using getAction_explore_iff[of w n state d] by blast
  from x show "\<exists>k. fst (getAction state d w) = Inr k \<and> 0 \<le> k \<and> k < n" by blast
  from x show "\<forall>k. (fst (getAction state d w) = Inr k)
             = (0 \<le> k \<and> k < n \<and> of_int k / of_int n \<le> randGenerator w 1
                \<and> randGenerator w 1 < (of_int k + 1) / of_int n)" by blast
qed

theorem getAction_epsilon_greedy_witness:
  "epsilon w_ready = 0 \<and> (\<forall>i. 0 \<le> randGenerator w_ready i \<and> randGenerator w_ready i < 1)
   \<and> planner_class w_ready = (\<lambda>_ _. 1)
   \<and> fst (getAction [1/2] 0 w_ready) = Inr 1
   \<and> fst (getAction [9, 9, 9] 7 w_ready) = Inr 1
   \<and> randGenerator (w_ready\<lparr>epsilon := 1, randGenerator := (\<lambda>_. 3/4)\<rparr>) 0
        < epsilon (w_ready\<lparr>epsilon := 1, randGenerator := (\<lambda>_. 3/4)\<rparr>)
   \<and> numActions (w_ready\<lparr>epsilon := 1, randGenerator := (\<lambda>_. 3/4)\<rparr>) = Some 2
   \<and> fst (getAction [1/2] 0 (w_ready\<lparr>epsilon := 1, randGenerator := (\<lambda>_. 3/4)\<rparr>)) = Inr 1"
proof -
  let ?p = "\<lparr>p_gamma = 99/100, p_model = stub_model, p_calls = []\<rparr>"
  let ?w = "w_ready\<lparr>epsilon := 1, randGenerator := (\<lambda>_. 3/4)\<rparr>"
  have a: "epsilon w_ready = 0" "\<forall>i. 0 \<le> randGenerator w_ready i \<and> randGenerator w_ready i < 1"
    "planner w_ready = Some ?p" "planner_class w_ready = (\<lambda>_ _. 1)"
    by (simp_all add: w_ready_eq)
  have b: "randGenerator ?w 0 < epsilon ?w" "numActions ?w = Some 2"
    "0 \<le> randGenerator ?w 1" "randGenerator ?w 1 < 1"
    by (simp_all add: w_ready_eq)
  have 1: "fst (getAction [1/2] 0 w_ready) = Inr 1"
    using getAction_epsilon_greedy[of w_ready ?p "[1/2]" 0 1 2] a by simp
  have 2: "fst (getAction [9, 9, 9] 7 w_ready) = Inr 1"
    using getAction_epsilon_greedy[of w_ready ?p "[9, 9, 9]" 7 1 2] a by simp
  have "\<forall>k. (fst (getAction [1/2] 0 ?w) = Inr k)
             = (0 \<le> k \<and> k < 2 \<and> of_int k / of_int 2 \<le> randGenerator ?w 1
                \<and> randGenerator ?w 1 < (of_int k + 1) / of_int 2)"
    using getAction_epsilon_greedy[of ?w ?p "[1/2]" 0 1 2] b by simp
  then have "(fst (getAction [1/2] 0 ?w) = Inr 1)
             = (0 \<le> (1::int) \<and> (1::int) < 2 \<and> of_int 1 / of_int 2 \<le> randGenerator ?w 1
                \<and> randGenerator ?w 1 < (of_int 1 + 1) / of_int 2)"
    by blast
  then have 3: "fst (getAction [1/2] 0 ?w) = Inr 1" by simp
  from a b 1 2 3 show ?thesis by simp
qed

text \<open>Without an action to draw, the exploration branch raises.\<close>

lemma getAction_explore_empty:
  assumes "randGenerator w 0 < epsilon w" and "numActions w = Some n" and "n \<le> 0"
  shows "fst (getAction state d w) = Inl ValueError"
  using assms
  by (simp add: getAction_def rand_random_def rand_randint_def monad_defs)

lemma shifted_fields:
  "fst (agent_init (\<lambda>_. shifted_spec) [] w_new) = Inr ()"
  "numActions (snd (agent_init (\<lambda>_. shifted_spec) [] w_new)) = Some 3"
  by (subst agent_init_fields[where lo=1 and hi=2 and rr="(Num 0, Num 2)" and rest="[]" and n=2];
      simp add: shifted_spec_def stub_spec_def numpy_w_new count_states_stub)+

lemma negative_fields:
  "fst (agent_init (\<lambda>_. negative_spec) [] w_new) = Inr ()"
  "numActions w_negative = Some 0"
  unfolding w_negative_def
  by (subst agent_init_fields[where lo="- 3" and hi="- 1" and rr="(Num 0, Num 2)" and rest="[]"
        and n=2];
      simp add: negative_spec_def stub_spec_def numpy_w_new count_states_stub)+

text \<open>
  C10. After an initialisation that returns, with the integer actions declared as
  \<open>[lo, hi]\<close>, \<^verbatim>\<open>numActions\<close> is \<open>hi + 1\<close> whatever \<open>lo\<close> is. For \<open>hi \<ge> 0\<close> the
  exploration branch then returns \<open>k\<close> exactly when \<open>0 \<le> k \<le> hi\<close> and the draw falls
  into the \<open>k\<close>-th of \<open>hi + 1\<close> equal parts of \<open>[0, 1)\<close>, so it draws uniformly from
  \<open>[0, hi]\<close>, which is not the declared range when \<open>lo\<close> is not \<open>0\<close>. For \<open>hi < 0\<close>
  there is no action to draw, and the exploration branch raises \<^verbatim>\<open>ValueError\<close>.
\<close>

theorem agent_init_numActions:
  assumes "fst (agent_init P s w) = Inr ()"
    and "getIntActions (P s) = [(Num lo, Num hi)]"
  shows "numActions (snd (agent_init P s w)) = Some (hi + 1)
    \<and> (0 \<le> hi \<and> u1 < e \<and> 0 \<le> u2 \<and> u2 < 1 \<longrightarrow>
         (\<forall>k. (fst (getAction state d
                   ((snd (agent_init P s w))
                      \<lparr>epsilon := e, randGenerator := (\<lambda>i. if i = 0 then u1 else u2)\<rparr>)) = Inr k)
               = (0 \<le> k \<and> k \<le> hi \<and> of_int k / of_int (hi + 1) \<le> u2
                  \<and> u2 < (of_int k + 1) / of_int (hi + 1)))
         \<and> (lo \<noteq> 0 \<and> lo \<le> hi \<longrightarrow> {0..hi} \<noteq> {lo..hi}))
    \<and> (hi < 0 \<and> u1 < e \<longrightarrow>
         fst (getAction state d
                ((snd (agent_init P s w))
                   \<lparr>epsilon := e, randGenerator := (\<lambda>i. if i = 0 then u1 else u2)\<rparr>))
           = Inl ValueError)"
proof -
  from agent_init_Inr[OF assms(1)] assms(2) obtain rr rest n where
    c: "valid (P s)" "getDoubleObservations (P s) \<noteq> [] \<or> getIntObservations (P s) \<noteq> []"
       "getIntActions (P s) = [(Num lo, Num hi)]" "getDoubleActions (P s) = []"
       "getRewardRange (P s) = rr # rest"
       "count_states (numpy w) (getIntObservations (P s)) = Inr n"
    by blast
  have na: "numActions (snd (agent_init P s w)) = Some (hi + 1)"
    by (rule agent_init_fields(5)[where P=P and s=s, OF c])
  let ?w = "(snd (agent_init P s w))
              \<lparr>epsilon := e, randGenerator := (\<lambda>i. if i = 0 then u1 else u2)\<rparr>"
  have draw: "\<forall>k. (fst (getAction state d ?w) = Inr k)
               = (0 \<le> k \<and> k \<le> hi \<and> of_int k / of_int (hi + 1) \<le> u2
                  \<and> u2 < (of_int k + 1) / of_int (hi + 1))"
    if h: "0 \<le> hi \<and> u1 < e \<and> 0 \<le> u2 \<and> u2 < 1"
  proof -
    have "randGenerator ?w 0 < epsilon ?w" "numActions ?w = Some (hi + 1)" "0 < hi + 1"
      "0 \<le> randGenerator ?w 1" "randGenerator ?w 1 < 1"
      using h na by simp_all
    from getAction_explore_iff[OF this, of state d] show ?thesis by simp
  qed
  have sets: "{0..hi} \<noteq> {lo..hi}" if h: "0 \<le> hi" "lo \<noteq> 0 \<and> lo \<le> hi"
  proof (cases "lo < 0")
    case True
    then have "lo \<in> {lo..hi}" "lo \<notin> {0..hi}" using h by simp_all
    then show ?thesis by blast
  next
    case False
    then have "0 \<notin> {lo..hi}" "0 \<in> {0..hi}" using h by simp_all
    then show ?thesis by blast
  qed
  have empty: "fst (getAction state d ?w) = Inl ValueError" if h: "hi < 0 \<and> u1 < e"
  proof -
    have "randGenerator ?w 0 < epsilon ?w" "numActions ?w = Some (hi + 1)" "hi + 1 \<le> 0"
      using h na by simp_all
    then show ?thesis by (rule getAction_explore_empty)
  qed
  from na draw sets empty show ?thesis by blast
qed

theorem agent_init_numActions_witness:
  "fst (agent_init (\<lambda>_. shifted_spec) [] w_new) = Inr ()
   \<and> getIntActions shifted_spec = [(Num 1, Num 2)]
   \<and> numActions (snd (agent_init (\<lambda>_. shifted_spec) [] w_new)) = Some 3
   \<and> fst (getAction [1/2] 0
        ((snd (agent_init (\<lambda>_. shifted_spec) [] w_new))
           \<lparr>epsilon := 1, randGenerator := (\<lambda>i. if i = 0 then 1/2 else 1/4)\<rparr>)) = Inr 0
   \<and> {0..2} \<noteq> {1..(2::int)}
   \<and> fst (agent_init (\<lambda>_. negative_spec) [] w_new) = Inr ()
   \<and> getIntActions negative_spec = [(Num (- 3), Num (- 1))]
   \<and> fst (getAction [1/2] 0
        ((snd (agent_init (\<lambda>_. negative_spec) [] w_new))
           \<lparr>epsilon := 1, randGenerator := (\<lambda>i. if i = 0 then 1/2 else 1/4)\<rparr>))
       = Inl ValueError"
proof -
  have g': "getIntActions negative_spec = [(Num (- 3), Num (- 1))]"
    by (simp add: negative_spec_def stub_spec_def)
  note t' = agent_init_numActions[of "\<lambda>_. negative_spec" "[]" w_new "- 3" "- 1" "1/2" 1 "1/4"
      "[1/2]" 0, OF negative_fields(1) g']
  from t' have b: "fst (getAction [1/2] 0
        ((snd (agent_init (\<lambda>_. negative_spec) [] w_new))
           \<lparr>epsilon := 1, randGenerator := (\<lambda>i. if i = 0 then 1/2 else 1/4)\<rparr>))
       = Inl ValueError"
    by simp
  have g: "getIntActions shifted_spec = [(Num 1, Num 2)]"
    by (simp add: shifted_spec_def stub_spec_def)
  note t = agent_init_numActions[of "\<lambda>_. shifted_spec" "[]" w_new 1 2 "1/2" 1 "1/4" "[1/2]" 0,
      OF shifted_fields(1) g]
  from t have "(fst (getAction [1/2] 0
        ((snd (agent_init (\<lambda>_. shifted_spec) [] w_new))
           \<lparr>epsilon := 1, randGenerator := (\<lambda>i. if i = 0 then 1/2 else 1/4)\<rparr>)) = Inr 0)
      = (0 \<le> (0::int) \<and> (0::int) \<le> 2 \<and> of_int 0 / of_int (2 + 1) \<le> (1/4::real)
                  \<and> (1/4::real) < (of_int 0 + 1) / of_int (2 + 1))"
    by simp
  then have a: "fst (getAction [1/2] 0
        ((snd (agent_init (\<lambda>_. shifted_spec) [] w_new))
           \<lparr>epsilon := 1, randGenerator := (\<lambda>i. if i = 0 then 1/2 else 1/4)\<rparr>)) = Inr 0"
    by simp
  from t have "{0..2} \<noteq> {1..(2::int)}" by simp
  with a b t g g' shifted_fields(1) negative_fields(1) show ?thesis by simp
qed

text \<open>
  The exploration branch does not draw from \<open>[0, hi]\<close> for every declared minimum
  other than \<open>0\<close>: with the actions declared as \<open>[-3, -1]\<close>, \<^verbatim>\<open>agent_init\<close> returns
  with \<open>numActions = 0\<close>, and \<^verbatim>\<open>randint(0, -1)\<close> raises.
\<close>

theorem agent_init_numActions_counterexample:
  "fst (agent_init (\<lambda>_. negative_spec) [] w_new) = Inr ()
   \<and> getIntActions negative_spec = [(Num (- 3), Num (- 1))]
   \<and> numActions w_negative = Some 0
   \<and> fst (getAction [1/2] 0
          (w_negative\<lparr>epsilon := 1, randGenerator := (\<lambda>i. if i = 0 then 1/2 else 1/4)\<rparr>))
       = Inl ValueError"
proof -
  let ?w = "w_negative\<lparr>epsilon := 1, randGenerator := (\<lambda>i. if i = 0 then 1/2 else 1/4)\<rparr>"
  have "randGenerator ?w 0 < epsilon ?w" "numActions ?w = Some 0" "(0::int) \<le> 0"
    by (simp_all add: negative_fields(2))
  then have "fst (getAction [1/2] 0 ?w) = Inl ValueError" by (rule getAction_explore_empty)
  moreover have "getIntActions negative_spec = [(Num (- 3), Num (- 1))]"
    by (simp add: negative_spec_def stub_spec_def)
  ultimately show ?thesis
    by (simp add: negative_fields)
qed

lemma agent_init_rejects:
  assumes "\<not> valid (P s)
     \<or> (getDoubleObservations (P s) = [] \<and> getIntObservations (P s) = [])
     \<or> length (getIntActions (P s)) \<noteq> 1
     \<or> getDoubleActions (P s) \<noteq> []
     \<or> (\<exists>b\<in>set (getIntActions (P s)). isSpecial (fst b) \<or> isSpecial (snd b))"
  shows "(\<exists>e. fst (agent_init P s w) = Inl e)
         \<and> model (snd (agent_init P s w)) = model w
         \<and> planner (snd (agent_init P s w)) = planner w
         \<and> heap (snd (agent_init P s w)) = heap w
         \<and> lastAction (snd (agent_init P s w)) = lastAction w
         \<and> lastObservation (snd (agent_init P s w)) = lastObservation w"
proof (cases "count_states (numpy w) (getIntObservations (P s))")
  case (Inl e)
  then show ?thesis
    by (simp add: agent_init_def monad_defs Let_def)
next
  case (Inr n)
  with assms show ?thesis
    by (auto simp: agent_init_def monad_defs new_abstract_type_def Let_def length_Suc_conv
      split: if_splits bound.splits list.splits prod.splits)
qed

lemma agent_init_assertions:
  assumes "valid (P s)"
  shows "getDoubleObservations (P s) = [] \<and> getIntObservations (P s) = [] \<Longrightarrow>
           fst (agent_init P s w)
             = Inl (AssertionError ''expecting at least one continuous or discrete observation'')"
    and "getDoubleObservations (P s) \<noteq> [] \<or> getIntObservations (P s) \<noteq> [] \<Longrightarrow>
         count_states (numpy w) (getIntObservations (P s)) = Inr n \<Longrightarrow>
         length (getIntActions (P s)) \<noteq> 1 \<Longrightarrow>
           fst (agent_init P s w) = Inl (AssertionError ''expecting 1-dimensional discrete actions'')"
    and "getDoubleObservations (P s) \<noteq> [] \<or> getIntObservations (P s) \<noteq> [] \<Longrightarrow>
         count_states (numpy w) (getIntObservations (P s)) = Inr n \<Longrightarrow>
         length (getIntActions (P s)) = 1 \<Longrightarrow> getDoubleActions (P s) \<noteq> [] \<Longrightarrow>
           fst (agent_init P s w) = Inl (AssertionError ''expecting no continuous actions'')"
    and "getDoubleObservations (P s) \<noteq> [] \<or> getIntObservations (P s) \<noteq> [] \<Longrightarrow>
         count_states (numpy w) (getIntObservations (P s)) = Inr n \<Longrightarrow>
         getIntActions (P s) = [(lo, hi)] \<Longrightarrow> getDoubleActions (P s) = [] \<Longrightarrow> isSpecial lo \<Longrightarrow>
           fst (agent_init P s w)
             = Inl (AssertionError '' expecting min action to be a number not a special value'')"
    and "getDoubleObservations (P s) \<noteq> [] \<or> getIntObservations (P s) \<noteq> [] \<Longrightarrow>
         count_states (numpy w) (getIntObservations (P s)) = Inr n \<Longrightarrow>
         getIntActions (P s) = [(lo, hi)] \<Longrightarrow> getDoubleActions (P s) = [] \<Longrightarrow>
         \<not> isSpecial lo \<Longrightarrow> isSpecial hi \<Longrightarrow>
           fst (agent_init P s w)
             = Inl (AssertionError '' expecting max action to be a number not a special value'')"
  using assms
  by (auto simp: agent_init_def monad_defs Let_def)

text \<open>
  C6. On a task specification that does not parse, line 76 builds its message from the
  name \<^verbatim>\<open>taskSpecString\<close>, which is not defined (the parameter is \<^verbatim>\<open>taskSpec\<close>):
  \<^verbatim>\<open>agent_init\<close> stops with a \<^verbatim>\<open>NameError\<close> and leaves the agent as it was. The
  other violations stop it with the assertion messages of lines 58 to 68, those of the
  actions once line 62 has returned (\<open>agent_init_assertions\<close>), and none of them
  constructs the model or the planner (\<open>agent_init_rejects\<close>).
\<close>

theorem agent_init_parse_failure:
  "valid broken_spec = False
   \<and> agent_init (\<lambda>_. broken_spec) ''VERSION'' w_new = (Inl (NameError ''taskSpecString''), w_new)"
  by (simp add: agent_init_invalid broken_spec_def)


section \<open>Running the episode\<close>

lemma intArray_of_world: "snd (intArray_of r w) = w"
  by (simp add: intArray_of_def monad_defs split: obj.splits)

lemma doubleArray_of_world: "snd (doubleArray_of r w) = w"
  by (simp add: doubleArray_of_def monad_defs split: obj.splits)

lemma agent_end_total:
  "(\<exists>p phi a. planner w = Some p
       \<and> agent_end reward w =
           (Inr (), w\<lparr>planner := Some (p\<lparr>p_calls := p_calls p @
                          [UpdateExperience phi a None reward]\<rparr>)\<rparr>))
   \<or> (\<exists>e. agent_end reward w = (Inl e, w))"
proof -
  obtain rd where rd: "doubleArray_of (lastObservation w) w = (rd, w)"
    by (metis prod.collapse doubleArray_of_world)
  obtain ra where ra: "intArray_of (lastAction w) w = (ra, w)"
    by (metis prod.collapse intArray_of_world)
  obtain ri where ri: "intArray_of (lastObservation w) w = (ri, w)"
    by (metis prod.collapse intArray_of_world)
  have gd: "getDiscState xs w = (fst (getDiscState xs w), w)" for xs
    by (metis prod.collapse getDiscState_world)
  show ?thesis
  proof (cases rd)
    case (Inl e)
    then show ?thesis by (simp add: agent_end_def thn_def gets_def rd)
  next
    case d: (Inr lastState)
    show ?thesis
    proof (cases ra)
      case (Inl e)
      then show ?thesis by (simp add: agent_end_def thn_def gets_def rd d ra)
    next
      case a: (Inr las)
      show ?thesis
      proof (cases las)
        case Nil
        then show ?thesis
          by (simp add: agent_end_def thn_def gets_def rd d ra a first_def raise_def)
      next
        case l: (Cons lastAct rest)
        show ?thesis
        proof (cases ri)
          case (Inl e)
          then show ?thesis
            by (simp add: agent_end_def thn_def gets_def rd d ra a l first_def ret_def ri)
        next
          case i: (Inr lastInts)
          show ?thesis
          proof (cases "fst (getDiscState lastInts w)")
            case (Inl e)
            then show ?thesis
              using gd[of lastInts]
              by (simp add: agent_end_def thn_def gets_def rd d ra a l first_def ret_def ri i)
          next
            case g: (Inr ld)
            have run: "getDiscState lastInts w = (Inr ld, w)" using gd[of lastInts] g by simp
            show ?thesis
              by (auto simp add: agent_end_def thn_def gets_def rd d ra a l first_def ret_def ri i
                  run attr_def lift_def planner_updateExperience_def modify_def
                  split: option.splits sum.splits)
          qed
        qed
      qed
    qed
  qed
qed


lemma w_started_getAction:
  "getAction [7/10] 1
     (w_started\<lparr>planner := Some \<lparr>p_gamma = 99/100, p_model = stub_model,
         p_calls = [GetAction [0, 1/2], UpdateExperience [0, 1/2] 1 (Some [1, 7/10]) 1]\<rparr>\<rparr>) =
     (Inr 1,
      w_started\<lparr>planner := Some \<lparr>p_gamma = 99/100, p_model = stub_model,
         p_calls = [GetAction [0, 1/2], UpdateExperience [0, 1/2] 1 (Some [1, 7/10]) 1,
                    GetAction [1, 7/10]]\<rparr>\<rparr>)"
  by (subst getAction_exploit[where p="\<lparr>p_gamma = 99/100, p_model = stub_model,
         p_calls = [GetAction [0, 1/2], UpdateExperience [0, 1/2] 1 (Some [1, 7/10]) 1]\<rparr>"])
     (simp_all add: w_started_fields)

lemma agent_step_w_started:
  "agent_step 1 7 w_started =
     (Inr 40,
      w_started\<lparr>planner := Some \<lparr>p_gamma = 99/100, p_model = stub_model,
         p_calls = [GetAction [0, 1/2], UpdateExperience [0, 1/2] 1 (Some [1, 7/10]) 1,
                    GetAction [1, 7/10]]\<rparr>,
        heap := heap w_started @ context_cells 37 1 [1] [7/10] [],
        lastAction := 45, lastObservation := 49\<rparr>)"
  by (subst agent_step_eq[OF w_started_obs(1) w_started_obs(2)[folded w_started_fields(3)]
        w_started_obs(3)[folded w_started_fields(2)] w_started_disc(2) w_started_disc(1)
        w_started_fields(5) fused_stub(1) fused_stub(2) w_started_fields(4) refl, where a=1])
     (simp_all add: w_started_getAction w_started_fields)

lemma w_stepped_eq:
  "w_stepped =
      w_started\<lparr>planner := Some \<lparr>p_gamma = 99/100, p_model = stub_model,
         p_calls = [GetAction [0, 1/2], UpdateExperience [0, 1/2] 1 (Some [1, 7/10]) 1,
                    GetAction [1, 7/10]]\<rparr>,
        heap := heap w_started @ context_cells 37 1 [1] [7/10] [],
        lastAction := 45, lastObservation := 49\<rparr>"
  by (simp add: w_stepped_def agent_step_w_started)

lemma w_stepped_fields:
  "length (heap w_stepped) = 50"
  "lastAction w_stepped = 45"
  "lastObservation w_stepped = 49"
  "planner w_stepped = Some \<lparr>p_gamma = 99/100, p_model = stub_model,
         p_calls = [GetAction [0, 1/2], UpdateExperience [0, 1/2] 1 (Some [1, 7/10]) 1,
                    GetAction [1, 7/10]]\<rparr>"
  "numStates w_stepped = Some 1"
  "discStates w_stepped = Some [(0, 1)]"
  "numDiscStates w_stepped = Some 2"
  "numpy w_stepped = stub_numpy"
  by (simp_all add: w_stepped_eq w_started_fields context_cells_def)

lemma w_stepped_obs:
  "snapshot (heap w_stepped) 49 = Some ([1], [7/10], [])"
  "snapshot (heap w_stepped) 45 = Some ([1], [], [])"
  "snapshot (heap w_stepped) 40 = Some ([1], [], [])"
  by (simp_all add: w_stepped_eq w_started_eq w_ready_eq caller_store_def context_cells_def
      snapshot_def)

lemma w_stepped_disc:
  "fst (getDiscState [1] w_stepped) = Inr 1"
  by (simp_all add: getDiscState_def np_zeros_def monad_defs w_stepped_fields stub_numpy_def
      index_state_def int64_rows_def int64_def discIndex_stub)

lemma thn_InrE:
  assumes "fst (thn m f w) = Inr r"
  obtains x w1 where "m w = (Inr x, w1)" and "fst (f x w1) = Inr r" and "thn m f w = f x w1"
  using assms by (cases "m w") (auto simp: thn_def split: sum.splits)

lemma reader_world:
  "doubleArray_of r w = (x1, w') \<Longrightarrow> w' = w"
  "intArray_of r w = (x2, w') \<Longrightarrow> w' = w"
  "getDiscState ints w = (x3, w') \<Longrightarrow> w' = w"
  "gets f w = (x4, w') \<Longrightarrow> w' = w"
  "first l w = (x5, w') \<Longrightarrow> w' = w"
  "attr g name w = (x6, w') \<Longrightarrow> w' = w"
  "lift v w = (x7, w') \<Longrightarrow> w' = w"
  using doubleArray_of_world[of r w] intArray_of_world[of r w] getDiscState_world[of ints w]
  by (auto simp: gets_def first_def attr_def lift_def raise_def ret_def
      split: list.splits option.splits)

lemma updateExperience_heap:
  "planner_updateExperience phi a phi' r w = (x, w') \<Longrightarrow> heap w' = heap w"
  by (auto simp: planner_updateExperience_def monad_defs split: option.splits)

lemma getAction_heap: "getAction state d w = (x, w') \<Longrightarrow> heap w' = heap w"
  using getAction_frame(1)[of state d w] by simp

lemma store_context_fst:
  assumes "snapshot (heap w) obs = Some (xs, ys, cs)"
    and "fst (thn new_abstract_type (\<lambda>returnAction.
         thn (set_intArray returnAction [a]) (\<lambda>_.
         thn (deepcopy returnAction) (\<lambda>la.
         thn (modify (\<lambda>w. w\<lparr>lastAction := la\<rparr>)) (\<lambda>_.
         thn (deepcopy obs) (\<lambda>ob.
         thn (modify (\<lambda>w. w\<lparr>lastObservation := ob\<rparr>)) (\<lambda>_.
         ret returnAction)))))) w) = Inr r"
  shows "r = length (heap w) + 3" 
  using assms(2) by (simp add: store_context[OF assms(1)])

lemma agent_start_Inr:
  assumes obs: "snapshot (heap w) obs = Some (xs, ys, cs)"
    and r: "fst (agent_start obs w) = Inr r"
  shows "\<exists>a. r = length (heap w) + 3
           \<and> heap (snd (agent_start obs w)) = heap w @ context_cells (length (heap w)) a xs ys cs
           \<and> lastAction (snd (agent_start obs w)) = length (heap w) + 8
           \<and> lastObservation (snd (agent_start obs w)) = length (heap w) + 12"
proof -
  from r[unfolded agent_start_def] show ?thesis
  proof (elim thn_InrE)
    fix x1 w1 x2 w2 d w3 a w4
    assume 1: "doubleArray_of obs w = (Inr x1, w1)"
      and 2: "intArray_of obs w1 = (Inr x2, w2)"
      and 3: "getDiscState x2 w2 = (Inr d, w3)"
      and 4: "getAction x1 d w3 = (Inr a, w4)"
    have w1: "w1 = w" "w2 = w" "w3 = w"
      using reader_world(1)[OF 1] reader_world(2)[OF 2] reader_world(3)[OF 3] by simp_all
    have x: "x1 = ys" "x2 = xs"
      using 1 2 by (simp_all add: w1 doubleArray_of_eq[OF obs] intArray_of_eq[OF obs])
    have d: "fst (getDiscState xs w) = Inr d" using 3 by (simp add: w1 x)
    have a: "fst (getAction ys d w) = Inr a" using 4 by (simp add: w1 x)
    note eq = agent_start_eq[OF obs d a]
    have "r = length (heap w) + 3" using r by (simp add: eq)
    then show ?thesis by (auto simp: eq intro: exI[of _ a])
  qed
qed


lemma agent_step_run:
  assumes obs: "snapshot (heap w) obs = Some (xs, ys, cs)"
    and lod: "doubleArray_of (lastObservation w) w = (Inr lys, w)"
    and la: "intArray_of (lastAction w) w = (Inr (la # rest), w)"
    and loi: "intArray_of (lastObservation w) w = (Inr lxs, w)"
    and nd: "fst (getDiscState xs w) = Inr nd"
    and ld: "fst (getDiscState lxs w) = Inr ld"
    and n: "numStates w = Some n"
    and phi_t: "fused n ld lys = Inr phi_t"
    and phi_tp: "fused n nd ys = Inr phi_tp"
    and p: "planner w = Some p"
    and w1: "w1 = w\<lparr>planner := Some (p\<lparr>p_calls := p_calls p @
                      [UpdateExperience phi_t la (Some phi_tp) reward]\<rparr>)\<rparr>"
    and a: "fst (getAction ys nd w1) = Inr a"
  shows "agent_step reward obs w =
     (Inr (length (heap w) + 3),
      (snd (getAction ys nd w1))
        \<lparr>heap := heap w @ context_cells (length (heap w)) a xs ys cs,
         lastAction := length (heap w) + 8,
         lastObservation := length (heap w) + 12\<rparr>)"
proof -
  have obs2: "snapshot (heap (snd (getAction ys nd w1))) obs = Some (xs, ys, cs)"
    using obs by (simp add: getAction_frame w1)
  have h: "heap (snd (getAction ys nd w1)) = heap w"
    by (simp add: getAction_frame w1)
  show ?thesis
    unfolding agent_step_def
    by (simp only: thn_doubleArray_of[OF obs] thn_gets
        thn_run[of "doubleArray_of (lastObservation w)" w lys w, OF lod]
        thn_run[of "intArray_of (lastAction w)" w "la # rest" w, OF la] thn_first
        thn_intArray_of[OF obs] thn_getDiscState[OF nd]
        thn_run[of "intArray_of (lastObservation w)" w lxs w, OF loi]
        thn_getDiscState[OF ld] thn_attr[of numStates w n, OF n] phi_t phi_tp thn_lift
        thn_updateExperience[OF p] w1[symmetric] thn_getAction[OF a] store_context[OF obs2] h)
qed

lemma updateExperience_Inr:
  assumes "planner_updateExperience phi a phi' r w = (Inr x, w')"
  shows "\<exists>p. planner w = Some p
           \<and> w' = w\<lparr>planner := Some (p\<lparr>p_calls := p_calls p @ [UpdateExperience phi a phi' r]\<rparr>)\<rparr>"
  using assms by (auto simp: planner_updateExperience_def monad_defs split: option.splits)

lemma agent_step_inversion:
  assumes obs: "snapshot (heap w) obs = Some (xs, ys, cs)"
    and r: "fst (agent_step reward obs w) = Inr r"
  shows "\<exists>a lys la rest lxs nd ld n phi_t phi_tp p.
           doubleArray_of (lastObservation w) w = (Inr lys, w)
           \<and> intArray_of (lastAction w) w = (Inr (la # rest), w)
           \<and> intArray_of (lastObservation w) w = (Inr lxs, w)
           \<and> fst (getDiscState xs w) = Inr nd
           \<and> fst (getDiscState lxs w) = Inr ld
           \<and> numStates w = Some n
           \<and> fused n ld lys = Inr phi_t
           \<and> fused n nd ys = Inr phi_tp
           \<and> planner w = Some p
           \<and> fst (getAction ys nd (w\<lparr>planner := Some (p\<lparr>p_calls := p_calls p @
                      [UpdateExperience phi_t la (Some phi_tp) reward]\<rparr>)\<rparr>)) = Inr a
           \<and> agent_step reward obs w =
               (Inr (length (heap w) + 3),
                (snd (getAction ys nd (w\<lparr>planner := Some (p\<lparr>p_calls := p_calls p @
                      [UpdateExperience phi_t la (Some phi_tp) reward]\<rparr>)\<rparr>)))
                  \<lparr>heap := heap w @ context_cells (length (heap w)) a xs ys cs,
                   lastAction := length (heap w) + 8,
                   lastObservation := length (heap w) + 12\<rparr>)"
proof -
  from r[unfolded agent_step_def] show ?thesis
  proof (elim thn_InrE)
    fix x1 w1 lo w2 lastState w3 lar w4 las w5 lastAct w6 newInts w7 nd w8 lastInts w9 ld w10
      n w11 phi_t w12 phi_tp w13 u w14 a w15
    assume 1: "doubleArray_of obs w = (Inr x1, w1)"
      and 2: "gets lastObservation w1 = (Inr lo, w2)"
      and 3: "doubleArray_of lo w2 = (Inr lastState, w3)"
      and 4: "gets lastAction w3 = (Inr lar, w4)"
      and 5: "intArray_of lar w4 = (Inr las, w5)"
      and 6: "first las w5 = (Inr lastAct, w6)"
      and 7: "intArray_of obs w6 = (Inr newInts, w7)"
      and 8: "getDiscState newInts w7 = (Inr nd, w8)"
      and 9: "intArray_of lo w8 = (Inr lastInts, w9)"
      and 10: "getDiscState lastInts w9 = (Inr ld, w10)"
      and 11: "attr numStates ''numStates'' w10 = (Inr n, w11)"
      and 12: "lift (fused n ld lastState) w11 = (Inr phi_t, w12)"
      and 13: "lift (fused n nd x1) w12 = (Inr phi_tp, w13)"
      and 14: "planner_updateExperience phi_t lastAct (Some phi_tp) reward w13 = (Inr u, w14)"
      and 15: "getAction x1 nd w14 = (Inr a, w15)"
    note c = reader_world(1)[OF 1] reader_world(4)[OF 2] reader_world(1)[OF 3]
      reader_world(4)[OF 4] reader_world(2)[OF 5] reader_world(5)[OF 6] reader_world(2)[OF 7]
      reader_world(3)[OF 8] reader_world(2)[OF 9] reader_world(3)[OF 10] reader_world(6)[OF 11]
      reader_world(7)[OF 12] reader_world(7)[OF 13]
    have ws: "w1 = w" "w2 = w" "w3 = w" "w4 = w" "w5 = w" "w6 = w" "w7 = w" "w8 = w" "w9 = w"
      "w10 = w" "w11 = w" "w12 = w" "w13 = w"
      using c by simp_all
    have x: "x1 = ys" "newInts = xs"
      using 1 7 by (simp_all add: ws doubleArray_of_eq[OF obs] intArray_of_eq[OF obs])
    have lo: "lo = lastObservation w" "lar = lastAction w"
      using 2 4 by (simp_all add: ws gets_def)
    from 6 obtain rest where las: "las = lastAct # rest"
      by (cases las) (auto simp: first_def raise_def ret_def)
    from 11 have n: "numStates w = Some n"
      by (auto simp: ws attr_def split: option.splits)
    from 12 13 have f: "fused n ld lastState = Inr phi_t" "fused n nd ys = Inr phi_tp"
      by (simp_all add: lift_def x)
    from updateExperience_Inr[OF 14] obtain p where p: "planner w = Some p"
      and w14: "w14 = w\<lparr>planner := Some (p\<lparr>p_calls := p_calls p @
                      [UpdateExperience phi_t lastAct (Some phi_tp) reward]\<rparr>)\<rparr>"
      by (auto simp: ws)
    have a: "fst (getAction ys nd w14) = Inr a" using 15 by (simp add: x)
    have r1: "doubleArray_of (lastObservation w) w = (Inr lastState, w)"
      and r2: "intArray_of (lastAction w) w = (Inr (lastAct # rest), w)"
      and r3: "intArray_of (lastObservation w) w = (Inr lastInts, w)"
      and r4: "fst (getDiscState xs w) = Inr nd"
      and r5: "fst (getDiscState lastInts w) = Inr ld"
      using 3 5 9 8 10 by (simp_all add: ws x lo las)
    note eq = agent_step_run[OF obs r1 r2 r3 r4 r5 n f p w14 a]
    from r1 r2 r3 r4 r5 n f p a eq show ?thesis unfolding w14 by blast
  qed
qed

lemma agent_step_Inr:
  assumes obs: "snapshot (heap w) obs = Some (xs, ys, cs)"
    and r: "fst (agent_step reward obs w) = Inr r"
  shows "\<exists>a. r = length (heap w) + 3
           \<and> heap (snd (agent_step reward obs w))
               = heap w @ context_cells (length (heap w)) a xs ys cs
           \<and> lastAction (snd (agent_step reward obs w)) = length (heap w) + 8
           \<and> lastObservation (snd (agent_step reward obs w)) = length (heap w) + 12"
proof -
  from agent_step_inversion[OF obs r] obtain a w2 where
    eq: "agent_step reward obs w =
           (Inr (length (heap w) + 3),
            w2\<lparr>heap := heap w @ context_cells (length (heap w)) a xs ys cs,
               lastAction := length (heap w) + 8,
               lastObservation := length (heap w) + 12\<rparr>)"
    by blast
  have "r = length (heap w) + 3" using r by (simp add: eq)
  then show ?thesis by (auto simp: eq intro: exI[of _ a])
qed


lemma fused_shape:
  assumes "fused n d xs = Inr v"
  shows "length v = n + 1 \<and> v ! 0 = of_int d \<and> (length xs = n \<longrightarrow> v = of_int d # xs)"
  using assms by (auto simp: fused_def assign_tail_def split: if_splits)

lemma fused_raises:
  "(\<exists>e. fused n d xs = Inl e) = (length xs \<noteq> n \<and> length xs \<noteq> 1)"
  by (auto simp: fused_def assign_tail_def)

section \<open>The claims about the episode\<close>

lemma fused_exact: "fused (length xs) d xs = Inr (of_int d # xs)"
  by (simp add: fused_def assign_tail_def)

lemma getAction_explore_planner:
  "randGenerator w 0 < epsilon w \<Longrightarrow> planner (snd (getAction state d w)) = planner w"
  by (simp add: getAction_def rand_random_def rand_randint_def monad_defs split: option.splits)

text \<open>
  C4. In every world, \<^verbatim>\<open>agent_end\<close> either returns, having appended to the calls of
  the planner exactly one experience tuple whose next state is \<^verbatim>\<open>None\<close> and having
  changed nothing else (no action is requested and no random number drawn), or raises
  and changes nothing. With a stored Episode Context whose observation has as many
  continuous values as the task specification declared, it returns, and the tuple holds
  the fused encoding of the stored observation, the stored action and the given
  reward. A tuple with next state \<^verbatim>\<open>None\<close> differs from every tuple with a vector.
\<close>

theorem agent_end_terminal:
  "((\<exists>p phi a. planner w = Some p
        \<and> agent_end reward w =
            (Inr (), w\<lparr>planner := Some (p\<lparr>p_calls := p_calls p @
                           [UpdateExperience phi a None reward]\<rparr>)\<rparr>))
     \<or> (\<exists>e. agent_end reward w = (Inl e, w)))
   \<and> (snapshot (heap w) (lastObservation w) = Some (lxs, lys, lcs)
        \<and> snapshot (heap w) (lastAction w) = Some (la # rest, lad, lac)
        \<and> fst (getDiscState lxs w) = Inr ld
        \<and> numStates w = Some (length lys)
        \<and> planner w = Some p \<longrightarrow>
      agent_end reward w =
        (Inr (), w\<lparr>planner := Some (p\<lparr>p_calls := p_calls p @
                       [UpdateExperience (of_int ld # lys) la None reward]\<rparr>)\<rparr>))
   \<and> (\<forall>phi a v. UpdateExperience phi a None reward \<noteq> UpdateExperience phi a (Some v) reward)"
proof (intro conjI impI)
  show "(\<exists>p phi a. planner w = Some p
        \<and> agent_end reward w =
            (Inr (), w\<lparr>planner := Some (p\<lparr>p_calls := p_calls p @
                           [UpdateExperience phi a None reward]\<rparr>)\<rparr>))
     \<or> (\<exists>e. agent_end reward w = (Inl e, w))"
    by (rule agent_end_total)
next
  assume h: "snapshot (heap w) (lastObservation w) = Some (lxs, lys, lcs)
        \<and> snapshot (heap w) (lastAction w) = Some (la # rest, lad, lac)
        \<and> fst (getDiscState lxs w) = Inr ld
        \<and> numStates w = Some (length lys)
        \<and> planner w = Some p"
  show "agent_end reward w =
        (Inr (), w\<lparr>planner := Some (p\<lparr>p_calls := p_calls p @
                       [UpdateExperience (of_int ld # lys) la None reward]\<rparr>)\<rparr>)"
    by (rule agent_end_eq[where lxs=lxs and lys=lys and lcs=lcs and rest=rest and lad=lad
          and lac=lac and ld=ld and n="length lys"])
       (simp_all add: h fused_exact)
next
  show "\<forall>phi a v. UpdateExperience phi a None reward \<noteq> UpdateExperience phi a (Some v) reward"
    by simp
qed

theorem agent_end_terminal_witness:
  "snapshot (heap w_stepped) (lastObservation w_stepped) = Some ([1], [7/10], [])
   \<and> snapshot (heap w_stepped) (lastAction w_stepped) = Some ([1], [], [])
   \<and> fst (getDiscState [1] w_stepped) = Inr 1
   \<and> numStates w_stepped = Some (length [7/10 :: real])
   \<and> agent_end 2 w_stepped =
       (Inr (), w_stepped\<lparr>planner := Some \<lparr>p_gamma = 99/100, p_model = stub_model,
          p_calls = [GetAction [0, 1/2], UpdateExperience [0, 1/2] 1 (Some [1, 7/10]) 1,
                     GetAction [1, 7/10], UpdateExperience [1, 7/10] 1 None 2]\<rparr>\<rparr>)"
  using agent_end_terminal[of w_stepped 2 "[1]" "[7/10]" "[]" 1 "[]" "[]" "[]" 1
      "\<lparr>p_gamma = 99/100, p_model = stub_model,
         p_calls = [GetAction [0, 1/2], UpdateExperience [0, 1/2] 1 (Some [1, 7/10]) 1,
                    GetAction [1, 7/10]]\<rparr>"]
  by (simp add: w_stepped_fields w_stepped_obs w_stepped_disc)

text \<open>
  C5. \<^verbatim>\<open>agent_step\<close> fuses the stored and the new observation, submits the tuple of
  the stored fused vector, the stored action, the new fused vector and the reward, then
  runs \<^verbatim>\<open>getAction\<close> on the new features and index in the world that holds the
  submission, then stores copies of the new action and the new observation, and returns
  the new action. When the policy exploits, the planner sees the submission before the
  request and answers the request with the submission in its history.
\<close>

theorem agent_step_sequence:
  assumes "snapshot (heap w) obs = Some (xs, ys, cs)"
    and "snapshot (heap w) (lastObservation w) = Some (lxs, lys, lcs)"
    and "snapshot (heap w) (lastAction w) = Some (la # rest, lad, lac)"
    and "fst (getDiscState xs w) = Inr nd"
    and "fst (getDiscState lxs w) = Inr ld"
    and "numStates w = Some n"
    and "fused n ld lys = Inr phi_t"
    and "fused n nd ys = Inr phi_tp"
    and "planner w = Some p"
    and "w1 = w\<lparr>planner := Some (p\<lparr>p_calls := p_calls p @
                      [UpdateExperience phi_t la (Some phi_tp) reward]\<rparr>)\<rparr>"
    and "fst (getAction ys nd w1) = Inr a"
    and "w' = snd (agent_step reward obs w)"
  shows "agent_step reward obs w =
           (Inr (length (heap w) + 3),
            (snd (getAction ys nd w1))
              \<lparr>heap := heap w @ context_cells (length (heap w)) a xs ys cs,
               lastAction := length (heap w) + 8,
               lastObservation := length (heap w) + 12\<rparr>)
    \<and> snapshot (heap w') (length (heap w) + 3) = Some ([a], [], [])
    \<and> snapshot (heap w') (lastAction w') = Some ([a], [], [])
    \<and> snapshot (heap w') (lastObservation w') = Some (xs, ys, cs)
    \<and> (\<not> randGenerator w 0 < epsilon w \<longrightarrow>
          a = planner_class w (p\<lparr>p_calls := p_calls p @
                 [UpdateExperience phi_t la (Some phi_tp) reward]\<rparr>) (of_int nd # ys)
          \<and> planner w' = Some (p\<lparr>p_calls := p_calls p @
                 [UpdateExperience phi_t la (Some phi_tp) reward,
                  GetAction (of_int nd # ys)]\<rparr>))
    \<and> (randGenerator w 0 < epsilon w \<longrightarrow>
          planner w' = Some (p\<lparr>p_calls := p_calls p @
                 [UpdateExperience phi_t la (Some phi_tp) reward]\<rparr>))"
proof -
  note eq = agent_step_eq[OF assms(1-11)]
  have w': "w' = (snd (getAction ys nd w1))
              \<lparr>heap := heap w @ context_cells (length (heap w)) a xs ys cs,
               lastAction := length (heap w) + 8,
               lastObservation := length (heap w) + 12\<rparr>"
    by (simp add: assms(12) eq)
  have s1: "snapshot (heap w') (length (heap w) + 3) = Some ([a], [], [])"
    by (simp add: w' snapshot_def context_cells_def nth_append)
  have s2: "snapshot (heap w') (lastAction w') = Some ([a], [], [])"
    by (simp add: w' snapshot_def context_cells_def nth_append)
  have s3: "snapshot (heap w') (lastObservation w') = Some (xs, ys, cs)"
    by (simp add: w' snapshot_def context_cells_def nth_append)
  have exploit: "a = planner_class w (p\<lparr>p_calls := p_calls p @
                 [UpdateExperience phi_t la (Some phi_tp) reward]\<rparr>) (of_int nd # ys)
          \<and> planner w' = Some (p\<lparr>p_calls := p_calls p @
                 [UpdateExperience phi_t la (Some phi_tp) reward,
                  GetAction (of_int nd # ys)]\<rparr>)"
    if ne: "\<not> randGenerator w 0 < epsilon w"
  proof -
    have ne1: "\<not> randGenerator w1 0 < epsilon w1" using ne by (simp add: assms(10))
    have p1: "planner w1 = Some (p\<lparr>p_calls := p_calls p @
                 [UpdateExperience phi_t la (Some phi_tp) reward]\<rparr>)"
      by (simp add: assms(10))
    note g = getAction_exploit[OF ne1 p1, of ys nd]
    from assms(11) have "a = planner_class w1 (p\<lparr>p_calls := p_calls p @
                 [UpdateExperience phi_t la (Some phi_tp) reward]\<rparr>) (of_int nd # ys)"
      by (simp add: g)
    moreover have "planner (snd (getAction ys nd w1)) = Some (p\<lparr>p_calls := p_calls p @
                 [UpdateExperience phi_t la (Some phi_tp) reward,
                  GetAction (of_int nd # ys)]\<rparr>)"
      by (simp add: g)
    moreover have "planner_class w1 = planner_class w" by (simp add: assms(10))
    ultimately show ?thesis by (simp add: w')
  qed
  have explore: "planner w' = Some (p\<lparr>p_calls := p_calls p @
                 [UpdateExperience phi_t la (Some phi_tp) reward]\<rparr>)"
    if e: "randGenerator w 0 < epsilon w"
  proof -
    have "randGenerator w1 0 < epsilon w1" using e by (simp add: assms(10))
    from getAction_explore_planner[OF this, of ys nd]
    have "planner (snd (getAction ys nd w1)) = planner w1" .
    moreover have "planner w1 = Some (p\<lparr>p_calls := p_calls p @
                 [UpdateExperience phi_t la (Some phi_tp) reward]\<rparr>)"
      by (simp add: assms(10))
    ultimately show ?thesis by (simp add: w')
  qed
  from eq s1 s2 s3 exploit explore show ?thesis by blast
qed

theorem agent_step_sequence_witness:
  "snapshot (heap w_started) 7 = Some ([1], [7/10], [])
   \<and> snapshot (heap w_started) (lastObservation w_started) = Some ([0], [1/2], [])
   \<and> snapshot (heap w_started) (lastAction w_started) = Some ([1], [], [])
   \<and> fst (agent_step 1 7 w_started) = Inr 40
   \<and> snapshot (heap w_stepped) 40 = Some ([1], [], [])
   \<and> snapshot (heap w_stepped) (lastAction w_stepped) = Some ([1], [], [])
   \<and> snapshot (heap w_stepped) (lastObservation w_stepped) = Some ([1], [7/10], [])
   \<and> planner w_stepped = Some \<lparr>p_gamma = 99/100, p_model = stub_model,
         p_calls = [GetAction [0, 1/2], UpdateExperience [0, 1/2] 1 (Some [1, 7/10]) 1,
                    GetAction [1, 7/10]]\<rparr>"
proof -
  let ?p = "\<lparr>p_gamma = 99/100, p_model = stub_model, p_calls = [GetAction [0, 1/2]]\<rparr>"
  let ?w1 = "w_started\<lparr>planner := Some (?p\<lparr>p_calls := p_calls ?p @
                      [UpdateExperience [0, 1/2] 1 (Some [1, 7/10]) 1]\<rparr>)\<rparr>"
  have a: "fst (getAction [7/10] 1 ?w1) = Inr 1"
    by (simp add: w_started_getAction)
  note t = agent_step_sequence[OF w_started_obs(1) w_started_obs(2)[folded w_started_fields(3)]
        w_started_obs(3)[folded w_started_fields(2)] w_started_disc(2) w_started_disc(1)
        w_started_fields(5) fused_stub(1) fused_stub(2) w_started_fields(4) refl a
        w_stepped_def]
  have ne: "\<not> randGenerator w_started 0 < epsilon w_started"
    by (simp add: w_started_fields)
  from t ne show ?thesis
    by (simp add: w_started_fields w_started_obs)
qed

lemma snapshot_cong:
  assumes "snapshot h' r = Some v" and "length h' \<le> length h''"
    and "\<forall>c\<in>cells h' r. h'' ! c = h' ! c"
  shows "snapshot h'' r = Some v"
  using assms
  by (auto simp: snapshot_def cells_def split: if_splits obj.splits)

lemma context_cells_isolated:
  assumes h: "heap w' = h @ context_cells (length h) a xs ys cs"
    and la: "lastAction w' = length h + 8"
    and lo: "lastObservation w' = length h + 12"
  shows "context_isolated h w' (length h + 3)
         \<and> snapshot (heap w') (lastObservation w') = Some (xs, ys, cs)
         \<and> snapshot (heap w') (lastAction w') = snapshot (heap w') (length h + 3)"
proof -
  let ?h' = "h @ context_cells (length h) a xs ys cs"
  have len: "length ?h' = length h + 13"
    by (simp add: context_cells_def)
  have cr: "cells ?h' (length h + 3) = {length h + 3, length h + 4, length h + 1, length h + 2}"
    by (simp add: cells_def context_cells_def nth_append)
  have co: "cells ?h' (length h + 12)
              = {length h + 12, length h + 9, length h + 10, length h + 11}"
    by (simp add: cells_def context_cells_def nth_append)
  have ca: "cells ?h' (length h + 8) = {length h + 8, length h + 5, length h + 6, length h + 7}"
    by (simp add: cells_def context_cells_def nth_append)
  have so: "snapshot ?h' (length h + 12) = Some (xs, ys, cs)"
    by (simp add: snapshot_def context_cells_def nth_append)
  have sa: "snapshot ?h' (length h + 8) = Some ([a], [], [])"
    by (simp add: snapshot_def context_cells_def nth_append)
  have sr: "snapshot ?h' (length h + 3) = Some ([a], [], [])"
    by (simp add: snapshot_def context_cells_def nth_append)
  have iso: "snapshot h'' (length h + 12) = Some (xs, ys, cs)
             \<and> snapshot h'' (length h + 8) = Some ([a], [], [])"
    if l: "length ?h' \<le> length h''"
      and same: "\<forall>c. length h \<le> c \<and> c < length ?h' \<and> c \<notin> cells ?h' (length h + 3)
                   \<longrightarrow> h'' ! c = ?h' ! c"
    for h''
  proof -
    have o: "\<forall>c\<in>cells ?h' (length h + 12). h'' ! c = ?h' ! c"
      using same unfolding co cr len by simp
    have ac: "\<forall>c\<in>cells ?h' (length h + 8). h'' ! c = ?h' ! c"
      using same unfolding ca cr len by simp
    from snapshot_cong[OF so l o] snapshot_cong[OF sa l ac] show ?thesis by simp
  qed
  have tk: "take (length h) ?h' = h" by simp
  show ?thesis
    unfolding context_isolated_def h la lo
    using iso so sa sr tk by simp
qed

text \<open>
  C9. When \<^verbatim>\<open>agent_start\<close> or \<^verbatim>\<open>agent_step\<close> returns, the stored observation equals
  the observation passed in as it was at the call, the stored action equals the returned
  one, and the stored context is isolated from the caller.
\<close>

theorem context_isolation:
  assumes "snapshot (heap w) obs = Some (xs, ys, cs)"
  shows "(fst (agent_start obs w) = Inr r \<longrightarrow>
            context_isolated (heap w) (snd (agent_start obs w)) r
            \<and> snapshot (heap (snd (agent_start obs w)))
                 (lastObservation (snd (agent_start obs w))) = Some (xs, ys, cs)
            \<and> snapshot (heap (snd (agent_start obs w)))
                 (lastAction (snd (agent_start obs w)))
               = snapshot (heap (snd (agent_start obs w))) r)
       \<and> (fst (agent_step reward obs w) = Inr r \<longrightarrow>
            context_isolated (heap w) (snd (agent_step reward obs w)) r
            \<and> snapshot (heap (snd (agent_step reward obs w)))
                 (lastObservation (snd (agent_step reward obs w))) = Some (xs, ys, cs)
            \<and> snapshot (heap (snd (agent_step reward obs w)))
                 (lastAction (snd (agent_step reward obs w)))
               = snapshot (heap (snd (agent_step reward obs w))) r)"
proof (intro conjI impI)
  assume "fst (agent_start obs w) = Inr r"
  from agent_start_Inr[OF assms this] obtain a where
    c: "r = length (heap w) + 3"
    "heap (snd (agent_start obs w)) = heap w @ context_cells (length (heap w)) a xs ys cs"
    "lastAction (snd (agent_start obs w)) = length (heap w) + 8"
    "lastObservation (snd (agent_start obs w)) = length (heap w) + 12"
    by blast
  from context_cells_isolated[OF c(2,3,4)]
  show "context_isolated (heap w) (snd (agent_start obs w)) r"
    and "snapshot (heap (snd (agent_start obs w)))
           (lastObservation (snd (agent_start obs w))) = Some (xs, ys, cs)"
    and "snapshot (heap (snd (agent_start obs w))) (lastAction (snd (agent_start obs w)))
           = snapshot (heap (snd (agent_start obs w))) r"
    by (simp_all add: c(1))
next
  assume "fst (agent_step reward obs w) = Inr r"
  from agent_step_Inr[OF assms this] obtain a where
    c: "r = length (heap w) + 3"
    "heap (snd (agent_step reward obs w)) = heap w @ context_cells (length (heap w)) a xs ys cs"
    "lastAction (snd (agent_step reward obs w)) = length (heap w) + 8"
    "lastObservation (snd (agent_step reward obs w)) = length (heap w) + 12"
    by blast
  from context_cells_isolated[OF c(2,3,4)]
  show "context_isolated (heap w) (snd (agent_step reward obs w)) r"
    and "snapshot (heap (snd (agent_step reward obs w)))
           (lastObservation (snd (agent_step reward obs w))) = Some (xs, ys, cs)"
    and "snapshot (heap (snd (agent_step reward obs w))) (lastAction (snd (agent_step reward obs w)))
           = snapshot (heap (snd (agent_step reward obs w))) r"
    by (simp_all add: c(1))
qed


lemma w_started_cells: "cells (heap w_started) 27 = {27, 28, 25, 26}"
  by (simp add: w_started_eq w_ready_eq caller_store_def context_cells_def cells_def)

lemma w_stepped_cells: "cells (heap w_stepped) 40 = {40, 41, 38, 39}"
  by (simp add: w_stepped_eq w_started_eq w_ready_eq caller_store_def context_cells_def cells_def)

theorem context_isolation_witness:
  "snapshot (heap w_ready) 3 = Some ([0], [1/2], [])
   \<and> fst (agent_start 3 w_ready) = Inr 27
   \<and> snapshot ((heap w_started)[0 := IntList [9], 1 := DoubleList [8], 3 := AbstractType 4 5 6,
                  27 := AbstractType 0 1 2]) (lastObservation w_started) = Some ([0], [1/2], [])
   \<and> snapshot ((heap w_started)[0 := IntList [9], 1 := DoubleList [8], 3 := AbstractType 4 5 6,
                  27 := AbstractType 0 1 2]) (lastAction w_started) = Some ([1], [], [])
   \<and> snapshot (heap w_started) 7 = Some ([1], [7/10], [])
   \<and> fst (agent_step 1 7 w_started) = Inr 40
   \<and> snapshot ((heap w_stepped)[4 := IntList [5], 7 := AbstractType 0 1 2, 41 := IntList [0]])
        (lastObservation w_stepped) = Some ([1], [7/10], [])
   \<and> snapshot ((heap w_stepped)[4 := IntList [5], 7 := AbstractType 0 1 2, 41 := IntList [0]])
        (lastAction w_stepped) = Some ([1], [], [])"
proof -
  let ?h1 = "(heap w_started)[0 := IntList [9], 1 := DoubleList [8], 3 := AbstractType 4 5 6,
                  27 := AbstractType 0 1 2]"
  let ?h2 = "(heap w_stepped)[4 := IntList [5], 7 := AbstractType 0 1 2, 41 := IntList [0]]"
  have r1: "fst (agent_start 3 w_ready) = Inr 27" by (simp add: agent_start_w_ready)
  have r2: "fst (agent_step 1 7 w_started) = Inr 40" by (simp add: agent_step_w_started)
  from context_isolation[OF w_ready_obs(1), of 27 1] r1
  have i1: "context_isolated (heap w_ready) w_started 27"
    and o1: "snapshot (heap w_started) (lastObservation w_started) = Some ([0], [1/2], [])"
    and a1: "snapshot (heap w_started) (lastAction w_started) = snapshot (heap w_started) 27"
    by (simp_all add: w_started_def)
  have m1: "length (heap w_started) \<le> length ?h1
      \<and> (\<forall>c. length (heap w_ready) \<le> c \<and> c < length (heap w_started)
             \<and> c \<notin> cells (heap w_started) 27 \<longrightarrow> ?h1 ! c = heap w_started ! c)"
    by (simp add: w_started_cells w_ready_length w_started_fields(1))
  from i1[unfolded context_isolated_def] m1
  have s1: "snapshot ?h1 (lastObservation w_started) = Some ([0], [1/2], [])"
    "snapshot ?h1 (lastAction w_started) = Some ([1], [], [])"
    using o1 a1 by (simp_all add: w_started_obs)
  from context_isolation[OF w_started_obs(1), of 40 1] r2
  have i2: "context_isolated (heap w_started) w_stepped 40"
    and o2: "snapshot (heap w_stepped) (lastObservation w_stepped) = Some ([1], [7/10], [])"
    and a2: "snapshot (heap w_stepped) (lastAction w_stepped) = snapshot (heap w_stepped) 40"
    by (simp_all add: w_stepped_def)
  have m2: "length (heap w_stepped) \<le> length ?h2
      \<and> (\<forall>c. length (heap w_started) \<le> c \<and> c < length (heap w_stepped)
             \<and> c \<notin> cells (heap w_stepped) 40 \<longrightarrow> ?h2 ! c = heap w_stepped ! c)"
    by (simp add: w_stepped_cells w_started_fields(1) w_stepped_fields(1))
  from i2[unfolded context_isolated_def] m2
  have s2: "snapshot ?h2 (lastObservation w_stepped) = Some ([1], [7/10], [])"
    "snapshot ?h2 (lastAction w_stepped) = Some ([1], [], [])"
    using o2 a2 by (simp_all add: w_stepped_obs)
  from w_ready_obs(1) r1 s1 w_started_obs(1) r2 s2 show ?thesis by simp
qed




end
